theory Spec2Isabelle
  imports Complex_Main "HOL-Library.Word"
begin

section \<open>Images and the imaging library\<close>

text \<open>
  \<^verbatim>\<open>imageContrast.py\<close> works on images of the imaging library (PIL). An image has a
  mode and, for every pixel, one 8-bit value per band. The width and the height play no
  part in what \<^verbatim>\<open>optimize_image_for_ocr\<close> does (every operation it calls is pointwise
  or a histogram), so an image is its pixels in row-major order. Four modes are modelled:
  the two of the specification's data model (\<^verbatim>\<open>L\<close>, one band, and \<^verbatim>\<open>RGB\<close>, three bands),
  and the two a screenshot file commonly decodes to besides them (\<^verbatim>\<open>RGBA\<close>, with an alpha
  band, and \<^verbatim>\<open>P\<close>, indices into a palette of 256 colours).
\<close>

type_synonym u8 = "8 word"

type_synonym rgb = "u8 \<times> u8 \<times> u8"

datatype image =
    ImageL "u8 list"
  | ImageRGB "rgb list"
  | ImageRGBA "(rgb \<times> u8) list"
  | ImageP "u8 \<Rightarrow> rgb" "u8 list"

fun mode :: "image \<Rightarrow> string" where
  "mode (ImageL ps) = ''L''"
| "mode (ImageRGB ps) = ''RGB''"
| "mode (ImageRGBA ps) = ''RGBA''"
| "mode (ImageP pal ps) = ''P''"

fun pixel_count :: "image \<Rightarrow> nat" where
  "pixel_count (ImageL ps) = length ps"
| "pixel_count (ImageRGB ps) = length ps"
| "pixel_count (ImageRGBA ps) = length ps"
| "pixel_count (ImageP pal ps) = length ps"

text \<open>The exceptions the routine can end with.\<close>

datatype error =
    FileNotFoundError
  | UnidentifiedImageError
  | ZeroDivisionError
  | NotImplementedError
  | OSError

text \<open>
  Modelled from the spec: \<^verbatim>\<open>Image.convert\<close> is the imaging library's, not the repository's.
  The specification says "convert a copy to single-channel grayscale"; the weights are the
  library's documented ITU-R 601-2 luma transform in its 16-bit fixed-point form. An alpha
  band is ignored and a palette index is looked up first.
\<close>

definition L24 :: "rgb \<Rightarrow> nat" where
  "L24 c = (case c of (r, g, b) \<Rightarrow> unat r * 19595 + unat g * 38470 + unat b * 7471 + 32768)"

definition rgb2l :: "rgb \<Rightarrow> u8" where
  "rgb2l c = of_nat (L24 c div 65536)"

fun Image_convert_L :: "image \<Rightarrow> image" where
  "Image_convert_L (ImageL ps) = ImageL ps"
| "Image_convert_L (ImageRGB ps) = ImageL (map rgb2l ps)"
| "Image_convert_L (ImageRGBA ps) = ImageL (map (\<lambda>(c, a). rgb2l c) ps)"
| "Image_convert_L (ImageP pal ps) = ImageL (map (\<lambda>i. rgb2l (pal i)) ps)"

text \<open>
  Modelled from the spec: \<^verbatim>\<open>Image.convert('RGB')\<close>, the "RGB-converted image" of step 5. A
  gray value becomes the colour with that value in each band, an alpha band is dropped, a
  palette index becomes its colour.
\<close>

fun Image_convert_RGB :: "image \<Rightarrow> image" where
  "Image_convert_RGB (ImageL ps) = ImageRGB (map (\<lambda>v. (v, v, v)) ps)"
| "Image_convert_RGB (ImageRGB ps) = ImageRGB ps"
| "Image_convert_RGB (ImageRGBA ps) = ImageRGB (map fst ps)"
| "Image_convert_RGB (ImageP pal ps) = ImageRGB (map pal ps)"

text \<open>
  Modelled from the spec: \<^verbatim>\<open>Image.histogram\<close>, "a 256-element count of how many pixels in
  an image have each possible intensity level", one such block of 256 counts per band.
\<close>

definition band_histogram :: "u8 list \<Rightarrow> nat list" where
  "band_histogram vs = map (\<lambda>level. count_list vs (of_nat level)) [0..<256]"

fun bands :: "image \<Rightarrow> u8 list list" where
  "bands (ImageL ps) = [ps]"
| "bands (ImageRGB ps) = [map fst ps, map (fst \<circ> snd) ps, map (snd \<circ> snd) ps]"
| "bands (ImageRGBA ps) =
     [map (fst \<circ> fst) ps, map (fst \<circ> snd \<circ> fst) ps, map (snd \<circ> snd \<circ> fst) ps, map snd ps]"
| "bands (ImageP pal ps) = [ps]"

definition Image_histogram :: "image \<Rightarrow> nat list" where
  "Image_histogram img = concat (map band_histogram (bands img))"

text \<open>
  Modelled from the spec: \<^verbatim>\<open>ImageOps.invert\<close>, "black\<leftrightarrow>white swap per channel, value \<rightarrow>
  255 - value". The library's \<^verbatim>\<open>ImageOps\<close> operations work on modes \<^verbatim>\<open>L\<close> and \<^verbatim>\<open>RGB\<close>
  only, which is why line 23 converts to \<^verbatim>\<open>RGB\<close> first: mode \<^verbatim>\<open>P\<close> raises
  NotImplementedError and any other mode OSError.
\<close>

definition invert_value :: "u8 \<Rightarrow> u8" where
  "invert_value v = 255 - v"

fun ImageOps_invert :: "image \<Rightarrow> error + image" where
  "ImageOps_invert (ImageL ps) = Inr (ImageL (map invert_value ps))"
| "ImageOps_invert (ImageRGB ps) =
     Inr (ImageRGB (map (\<lambda>(r, g, b). (invert_value r, invert_value g, invert_value b)) ps))"
| "ImageOps_invert (ImageRGBA ps) = Inl OSError"
| "ImageOps_invert (ImageP pal ps) = Inl NotImplementedError"

text \<open>
  Modelled from the spec: \<^verbatim>\<open>ImageOps.autocontrast\<close> with its default arguments, "a linear
  remapping of pixel intensities so the image's darkest and lightest observed values become
  0 and 255", per band. \<open>lo\<close> and \<open>hi\<close> are the darkest and the lightest value of the
  band (255 and 0 for a band with no pixel, as the library's scans of the histogram leave
  them); a band with \<open>hi \<le> lo\<close> is left as it is. The library scales in floating point
  and truncates; the model scales exactly, which agrees wherever the quotient is exact.
  As for \<^verbatim>\<open>ImageOps.invert\<close>, modes other than \<^verbatim>\<open>L\<close> and \<^verbatim>\<open>RGB\<close> are refused.
\<close>

definition lowest :: "u8 list \<Rightarrow> u8" where
  "lowest vs = fold min vs 255"

definition highest :: "u8 list \<Rightarrow> u8" where
  "highest vs = fold max vs 0"

definition stretch :: "u8 \<Rightarrow> u8 \<Rightarrow> u8 \<Rightarrow> u8" where
  "stretch lo hi v =
     (if hi \<le> lo then v
      else let ix = (int (unat v) - int (unat lo)) * 255 div (int (unat hi) - int (unat lo))
           in if ix < 0 then 0 else if ix > 255 then 255 else of_nat (nat ix))"

definition autocontrast_band :: "u8 list \<Rightarrow> u8 list" where
  "autocontrast_band vs = map (stretch (lowest vs) (highest vs)) vs"

fun ImageOps_autocontrast :: "image \<Rightarrow> error + image" where
  "ImageOps_autocontrast (ImageL ps) = Inr (ImageL (autocontrast_band ps))"
| "ImageOps_autocontrast (ImageRGB ps) =
     Inr (ImageRGB (zip (autocontrast_band (map fst ps))
                     (zip (autocontrast_band (map (fst \<circ> snd) ps))
                          (autocontrast_band (map (snd \<circ> snd) ps)))))"
| "ImageOps_autocontrast (ImageRGBA ps) = Inl OSError"
| "ImageOps_autocontrast (ImageP pal ps) = Inl NotImplementedError"

section \<open>The routine of imageContrast.py\<close>

text \<open>
  \<^verbatim>\<open>optimize_image_for_ocr(image_path, output_path)\<close>, lines 3 to 33. The model returns
  the image handed to \<^verbatim>\<open>image.save\<close>, or the exception that ended the call; writing the
  output file and the printed messages are left out. The body is cut at the source's own
  blank lines: line 5 opens the file, and lines 10 to 32 work on the decoded image.

  Modelled from the spec: \<^verbatim>\<open>Image.open\<close>, line 5, is the imaging library's. The routine
  "fails when the input path does not exist or is not a decodable image (image-decode
  error)". What \<^verbatim>\<open>image_path\<close> refers to is no file, a file that is not an image, or the
  encoding of an image; an encoding without a single pixel is not a decodable image
  either, the library identifies no file of zero width or height as an image.
\<close>

datatype image_file = NoSuchFile | NotAnImage | EncodedImage image

fun Image_open :: "image_file \<Rightarrow> error + image" where
  "Image_open NoSuchFile = Inl FileNotFoundError"
| "Image_open NotAnImage = Inl UnidentifiedImageError"
| "Image_open (EncodedImage img) =
     (if pixel_count img = 0 then Inl UnidentifiedImageError else Inr img)"

text \<open>
  Lines 10 to 16: the gray copy, its histogram, and the average. Python's \<^verbatim>\<open>/\<close> on
  integers raises ZeroDivisionError for a zero divisor and otherwise gives the quotient,
  here as a real number (the float Python gives is that quotient correctly rounded, and
  compares with 128 as the quotient does unless the image has more than \<open>2 ^ 46\<close> pixels).
\<close>

definition average_brightness :: "image \<Rightarrow> error + real" where
  "average_brightness img =
     (let gray = Image_convert_L img;
          histogram = Image_histogram gray;
          pixels = sum_list histogram;
          total_brightness = sum_list (map (\<lambda>(i, w). i * w) (enumerate 0 histogram))
      in if pixels = 0 then Inl ZeroDivisionError
         else Inr (real total_brightness / real pixels))"

text \<open>Lines 20 to 25: the image as it stands after the \<^verbatim>\<open>if\<close>.\<close>

definition invert_if_dark :: "image \<Rightarrow> error + image" where
  "invert_if_dark img =
     (case average_brightness img of
        Inl e \<Rightarrow> Inl e
      | Inr a \<Rightarrow>
          if a < 128 then ImageOps_invert (Image_convert_RGB img)
          else Inr img)"

text \<open>Line 29, and the image that line 32 saves: lines 10 to 32, on the decoded image.\<close>

definition optimize_image_for_ocr :: "image \<Rightarrow> error + image" where
  "optimize_image_for_ocr img =
     (case invert_if_dark img of
        Inl e \<Rightarrow> Inl e
      | Inr img' \<Rightarrow> ImageOps_autocontrast img')"

text \<open>Lines 5 to 32: the whole call, from what \<^verbatim>\<open>image_path\<close> refers to.\<close>

definition optimize_image_for_ocr_file :: "image_file \<Rightarrow> error + image" where
  "optimize_image_for_ocr_file src =
     (case Image_open src of
        Inl e \<Rightarrow> Inl e
      | Inr img \<Rightarrow> optimize_image_for_ocr img)"

section \<open>The schema classes of schemas.py\<close>

text \<open>
  \<^verbatim>\<open>schemas.py\<close> declares four classes, each a list of typed fields and nothing else: no
  method, no validator, no configuration. A constructed instance is a record of the
  declared fields. \<^verbatim>\<open>name\<close> and \<^verbatim>\<open>type\<close> are fields of more than one class; the record
  they belong to is written in front where it matters (\<open>Column.name\<close>, \<open>Table.name\<close>).
\<close>

record Column =
  name :: string
  type :: string
  is_primary_key :: bool
  is_foreign_key :: bool

record Table =
  name :: string
  columns :: "Column list"

record Relationship =
  from_table :: string
  from_column :: string
  to_table :: string
  to_column :: string
  type :: string

record DatabaseSchema =
  tables :: "Table list"
  relationships :: "Relationship list"

text \<open>
  The values a caller can pass for a field: Python's dynamically typed values, as far as
  the four classes can meet them, and instances of the four classes themselves.
\<close>

datatype pyval =
    PyNone
  | PyBool bool
  | PyInt int
  | PyStr string
  | PyList "pyval list"
  | PyDict "(string \<times> pyval) list"
  | PyColumn Column
  | PyTable Table
  | PyRelationship Relationship
  | PyDatabaseSchema DatabaseSchema

text \<open>
  Modelled from the spec: the constructor of \<^verbatim>\<open>BaseModel\<close> is the validation library's
  (pydantic), not the repository's. The specification's words: "each type validates that
  required fields are present and correctly typed at construction time; optional boolean
  fields default to false when omitted", and a failure is "a structural-validation error
  identifying the offending field and expected type". A validation error is a non-empty
  list of details, each the location of a field (a key, or a key, an index and so on for a
  field of a nested record) with what is wrong there; all fields are checked and their
  details are listed in the order of the fields. A value is correctly typed when it is of
  the declared type (the library's conversions between Python types are not modelled); a
  nested record is given as an instance of its class or as the dictionary of its fields;
  keys that name no field are ignored.
\<close>

datatype loc_item = Key string | Index nat

datatype problem = missing | wrong_type string

type_synonym error_detail = "loc_item list \<times> problem"

type_synonym 'a validated = "error_detail list + 'a"

definition errors_of :: "'a validated \<Rightarrow> error_detail list" where
  "errors_of r = (case r of Inl errs \<Rightarrow> errs | Inr x \<Rightarrow> [])"

definition at_loc :: "loc_item list \<Rightarrow> 'a validated \<Rightarrow> 'a validated" where
  "at_loc prefix r =
     (case r of
        Inl errs \<Rightarrow> Inl (map (\<lambda>(loc, p). (prefix @ loc, p)) errs)
      | Inr x \<Rightarrow> Inr x)"

definition ap :: "('a \<Rightarrow> 'b) validated \<Rightarrow> 'a validated \<Rightarrow> 'b validated" where
  "ap rf rx =
     (case rf of
        Inr f \<Rightarrow> (case rx of Inr x \<Rightarrow> Inr (f x) | Inl errs \<Rightarrow> Inl errs)
      | Inl errs \<Rightarrow> Inl (errs @ errors_of rx))"

definition str_field :: "(string \<times> pyval) list \<Rightarrow> string \<Rightarrow> string validated" where
  "str_field kwargs field =
     (case map_of kwargs field of
        None \<Rightarrow> Inl [([Key field], missing)]
      | Some (PyStr s) \<Rightarrow> Inr s
      | Some _ \<Rightarrow> Inl [([Key field], wrong_type ''str'')])"

definition bool_field :: "(string \<times> pyval) list \<Rightarrow> string \<Rightarrow> bool \<Rightarrow> bool validated" where
  "bool_field kwargs field dflt =
     (case map_of kwargs field of
        None \<Rightarrow> Inr dflt
      | Some (PyBool b) \<Rightarrow> Inr b
      | Some _ \<Rightarrow> Inl [([Key field], wrong_type ''bool'')])"

fun list_items :: "(pyval \<Rightarrow> 'a validated) \<Rightarrow> nat \<Rightarrow> pyval list \<Rightarrow> 'a list validated" where
  "list_items item i [] = Inr []"
| "list_items item i (v # vs) =
     ap (ap (Inr (#)) (at_loc [Index i] (item v))) (list_items item (Suc i) vs)"

definition list_field ::
  "(pyval \<Rightarrow> 'a validated) \<Rightarrow> (string \<times> pyval) list \<Rightarrow> string \<Rightarrow> 'a list validated" where
  "list_field item kwargs field =
     (case map_of kwargs field of
        None \<Rightarrow> Inl [([Key field], missing)]
      | Some (PyList vs) \<Rightarrow> at_loc [Key field] (list_items item 0 vs)
      | Some _ \<Rightarrow> Inl [([Key field], wrong_type ''list'')])"

text \<open>
  The four constructors, with the fields, types and defaults of lines 4 to 23, and what
  each class accepts where it is the type of a field of another.
\<close>

definition Column_init :: "(string \<times> pyval) list \<Rightarrow> Column validated" where
  "Column_init kwargs =
     ap (ap (ap (ap (Inr (\<lambda>n t pk fk.
           \<lparr>Column.name = n, Column.type = t, is_primary_key = pk, is_foreign_key = fk\<rparr>))
         (str_field kwargs ''name''))
         (str_field kwargs ''type''))
         (bool_field kwargs ''is_primary_key'' False))
         (bool_field kwargs ''is_foreign_key'' False)"

definition Column_validate :: "pyval \<Rightarrow> Column validated" where
  "Column_validate v =
     (case v of
        PyColumn c \<Rightarrow> Inr c
      | PyDict kwargs \<Rightarrow> Column_init kwargs
      | _ \<Rightarrow> Inl [([], wrong_type ''Column'')])"

definition Table_init :: "(string \<times> pyval) list \<Rightarrow> Table validated" where
  "Table_init kwargs =
     ap (ap (Inr (\<lambda>n cs. \<lparr>Table.name = n, columns = cs\<rparr>))
         (str_field kwargs ''name''))
         (list_field Column_validate kwargs ''columns'')"

definition Table_validate :: "pyval \<Rightarrow> Table validated" where
  "Table_validate v =
     (case v of
        PyTable t \<Rightarrow> Inr t
      | PyDict kwargs \<Rightarrow> Table_init kwargs
      | _ \<Rightarrow> Inl [([], wrong_type ''Table'')])"

definition Relationship_init :: "(string \<times> pyval) list \<Rightarrow> Relationship validated" where
  "Relationship_init kwargs =
     ap (ap (ap (ap (ap (Inr (\<lambda>ft fc tt tc ty.
           \<lparr>from_table = ft, from_column = fc, to_table = tt, to_column = tc,
            Relationship.type = ty\<rparr>))
         (str_field kwargs ''from_table''))
         (str_field kwargs ''from_column''))
         (str_field kwargs ''to_table''))
         (str_field kwargs ''to_column''))
         (str_field kwargs ''type'')"

definition Relationship_validate :: "pyval \<Rightarrow> Relationship validated" where
  "Relationship_validate v =
     (case v of
        PyRelationship r \<Rightarrow> Inr r
      | PyDict kwargs \<Rightarrow> Relationship_init kwargs
      | _ \<Rightarrow> Inl [([], wrong_type ''Relationship'')])"

definition DatabaseSchema_init :: "(string \<times> pyval) list \<Rightarrow> DatabaseSchema validated" where
  "DatabaseSchema_init kwargs =
     ap (ap (Inr (\<lambda>ts rs. \<lparr>tables = ts, relationships = rs\<rparr>))
         (list_field Table_validate kwargs ''tables''))
         (list_field Relationship_validate kwargs ''relationships'')"

text \<open>
  Attribute access on constructed instances. Lines 4 to 23 declare fields only: no class
  sets \<^verbatim>\<open>frozen\<close> in a \<^verbatim>\<open>model_config\<close> (or an inner \<^verbatim>\<open>Config\<close>), and none defines
  \<^verbatim>\<open>__setattr__\<close> or a property. Reading and assigning an attribute are therefore the
  library's defaults for \<^verbatim>\<open>BaseModel\<close>: reading a field of the class gives its current
  value; assigning to a field of the class stores the new value, unvalidated, unless the
  class is frozen.

  The attribute names are the eleven names that lines 4 to 23 declare. Such a name that
  is no field of the class at hand (\<^verbatim>\<open>columns\<close> on a \<^verbatim>\<open>Column\<close>) raises AttributeError when
  read and ValueError when assigned. Names that no class of the file declares (private
  names with a leading underscore, the methods of \<^verbatim>\<open>BaseModel\<close>) are outside the model.
\<close>

datatype model_class = Column_class | Table_class | Relationship_class | DatabaseSchema_class

datatype attr =
    attr_name
  | attr_type
  | attr_is_primary_key
  | attr_is_foreign_key
  | attr_columns
  | attr_from_table
  | attr_from_column
  | attr_to_table
  | attr_to_column
  | attr_tables
  | attr_relationships

fun model_fields :: "model_class \<Rightarrow> attr list" where
  "model_fields Column_class = [attr_name, attr_type, attr_is_primary_key, attr_is_foreign_key]"
| "model_fields Table_class = [attr_name, attr_columns]"
| "model_fields Relationship_class =
     [attr_from_table, attr_from_column, attr_to_table, attr_to_column, attr_type]"
| "model_fields DatabaseSchema_class = [attr_tables, attr_relationships]"

text \<open>
  Instances have an identity: the library keeps the very instance that is passed for a
  field of a nested class, so that the instance is shared by the caller and by every
  record that holds it, and an assignment made through one holder is seen by all. The
  instances therefore live in a store, and a value is a plain Python value or the
  reference to an instance, an index into the store. An instance is its class with the
  dictionary of its attributes (\<^verbatim>\<open>__dict__\<close>).
\<close>

datatype hval =
    HNone
  | HBool bool
  | HInt int
  | HStr string
  | HList "hval list"
  | HDict "(string \<times> hval) list"
  | HRef nat

type_synonym model_object = "model_class \<times> (attr \<times> hval) list"

type_synonym store = "model_object list"

datatype attr_error = AttributeError | ValueError | frozen_instance

definition frozen :: "model_class \<Rightarrow> bool" where
  "frozen cls = False"

definition getattr :: "model_object \<Rightarrow> attr \<Rightarrow> attr_error + hval" where
  "getattr obj a =
     (case map_of (snd obj) a of
        None \<Rightarrow> Inl AttributeError
      | Some v \<Rightarrow> Inr v)"

fun dict_setitem :: "attr \<Rightarrow> hval \<Rightarrow> (attr \<times> hval) list \<Rightarrow> (attr \<times> hval) list" where
  "dict_setitem a v [] = [(a, v)]"
| "dict_setitem a v ((k, x) # d) = (if k = a then (a, v) # d else (k, x) # dict_setitem a v d)"

definition setattr :: "model_object \<Rightarrow> attr \<Rightarrow> hval \<Rightarrow> attr_error + model_object" where
  "setattr obj a v =
     (if frozen (fst obj) then Inl frozen_instance
      else if a \<in> set (model_fields (fst obj)) then Inr (fst obj, dict_setitem a v (snd obj))
      else Inl ValueError)"

text \<open>
  Reading and assigning through a reference. An index that no construction has handed
  out is no reference of the program: the answer is then \<open>None\<close>.
\<close>

definition store_getattr :: "store \<Rightarrow> nat \<Rightarrow> attr \<Rightarrow> (attr_error + hval) option" where
  "store_getattr st r a = (if r < length st then Some (getattr (st ! r) a) else None)"

definition store_setattr :: "store \<Rightarrow> nat \<Rightarrow> attr \<Rightarrow> hval \<Rightarrow> (attr_error + store) option" where
  "store_setattr st r a v =
     (if r < length st
      then Some (case setattr (st ! r) a v of
                   Inl e \<Rightarrow> Inl e
                 | Inr obj \<Rightarrow> Inr (st[r := obj]))
      else None)"

definition allocate :: "model_object \<Rightarrow> store \<Rightarrow> nat \<times> store" where
  "allocate obj st = (length st, st @ [obj])"

text \<open>
  The expressions \<^verbatim>\<open>Column(**kwargs)\<close> and so on, evaluated in a store: a validation error,
  or the reference to the new instance and the store that holds it. The fields are
  checked as above, on values that may be references. An element of a list of records is
  the reference to an instance of the element class, which is kept as it is, or the
  dictionary of the fields, from which a new instance is constructed.
\<close>

definition hstr_field :: "(string \<times> hval) list \<Rightarrow> string \<Rightarrow> string validated" where
  "hstr_field kwargs field =
     (case map_of kwargs field of
        None \<Rightarrow> Inl [([Key field], missing)]
      | Some (HStr s) \<Rightarrow> Inr s
      | Some _ \<Rightarrow> Inl [([Key field], wrong_type ''str'')])"

definition hbool_field :: "(string \<times> hval) list \<Rightarrow> string \<Rightarrow> bool \<Rightarrow> bool validated" where
  "hbool_field kwargs field dflt =
     (case map_of kwargs field of
        None \<Rightarrow> Inr dflt
      | Some (HBool b) \<Rightarrow> Inr b
      | Some _ \<Rightarrow> Inl [([Key field], wrong_type ''bool'')])"

definition instance_item ::
  "model_class \<Rightarrow> string \<Rightarrow> ((string \<times> hval) list \<Rightarrow> store \<Rightarrow> (nat \<times> store) validated)
     \<Rightarrow> hval \<Rightarrow> store \<Rightarrow> (nat \<times> store) validated" where
  "instance_item cls cls_name init v st =
     (case v of
        HRef r \<Rightarrow>
          if r < length st \<and> fst (st ! r) = cls then Inr (r, st)
          else Inl [([], wrong_type cls_name)]
      | HDict kwargs \<Rightarrow> init kwargs st
      | _ \<Rightarrow> Inl [([], wrong_type cls_name)])"

fun new_items ::
  "(hval \<Rightarrow> store \<Rightarrow> (nat \<times> store) validated) \<Rightarrow> nat \<Rightarrow> hval list \<Rightarrow> store
     \<Rightarrow> (nat list \<times> store) validated" where
  "new_items item i [] st = Inr ([], st)"
| "new_items item i (v # vs) st =
     (case at_loc [Index i] (item v st) of
        Inl errs \<Rightarrow> Inl (errs @ errors_of (new_items item (Suc i) vs st))
      | Inr (r, st1) \<Rightarrow>
          (case new_items item (Suc i) vs st1 of
             Inl errs \<Rightarrow> Inl errs
           | Inr (rs, st2) \<Rightarrow> Inr (r # rs, st2)))"

definition new_list_field ::
  "(hval \<Rightarrow> store \<Rightarrow> (nat \<times> store) validated) \<Rightarrow> (string \<times> hval) list \<Rightarrow> string \<Rightarrow> store
     \<Rightarrow> (nat list \<times> store) validated" where
  "new_list_field item kwargs field st =
     (case map_of kwargs field of
        None \<Rightarrow> Inl [([Key field], missing)]
      | Some (HList vs) \<Rightarrow> at_loc [Key field] (new_items item 0 vs st)
      | Some _ \<Rightarrow> Inl [([Key field], wrong_type ''list'')])"

definition Column_object :: "string \<Rightarrow> string \<Rightarrow> bool \<Rightarrow> bool \<Rightarrow> model_object" where
  "Column_object n t pk fk =
     (Column_class,
      [(attr_name, HStr n), (attr_type, HStr t),
       (attr_is_primary_key, HBool pk), (attr_is_foreign_key, HBool fk)])"

definition Column_new :: "(string \<times> hval) list \<Rightarrow> store \<Rightarrow> (nat \<times> store) validated" where
  "Column_new kwargs st =
     (case ap (ap (ap (ap (Inr Column_object)
             (hstr_field kwargs ''name''))
             (hstr_field kwargs ''type''))
             (hbool_field kwargs ''is_primary_key'' False))
             (hbool_field kwargs ''is_foreign_key'' False) of
        Inl errs \<Rightarrow> Inl errs
      | Inr obj \<Rightarrow> Inr (allocate obj st))"

definition Table_object :: "string \<Rightarrow> nat list \<Rightarrow> model_object" where
  "Table_object n cs =
     (Table_class, [(attr_name, HStr n), (attr_columns, HList (map HRef cs))])"

definition Table_new :: "(string \<times> hval) list \<Rightarrow> store \<Rightarrow> (nat \<times> store) validated" where
  "Table_new kwargs st =
     (case hstr_field kwargs ''name'' of
        Inl errs \<Rightarrow>
          Inl (errs @ errors_of
            (new_list_field (instance_item Column_class ''Column'' Column_new)
               kwargs ''columns'' st))
      | Inr n \<Rightarrow>
          (case new_list_field (instance_item Column_class ''Column'' Column_new)
                  kwargs ''columns'' st of
             Inl errs \<Rightarrow> Inl errs
           | Inr (cs, st1) \<Rightarrow> Inr (allocate (Table_object n cs) st1)))"

definition Relationship_object ::
  "string \<Rightarrow> string \<Rightarrow> string \<Rightarrow> string \<Rightarrow> string \<Rightarrow> model_object" where
  "Relationship_object ft fc tt tc ty =
     (Relationship_class,
      [(attr_from_table, HStr ft), (attr_from_column, HStr fc),
       (attr_to_table, HStr tt), (attr_to_column, HStr tc), (attr_type, HStr ty)])"

definition Relationship_new :: "(string \<times> hval) list \<Rightarrow> store \<Rightarrow> (nat \<times> store) validated" where
  "Relationship_new kwargs st =
     (case ap (ap (ap (ap (ap (Inr Relationship_object)
             (hstr_field kwargs ''from_table''))
             (hstr_field kwargs ''from_column''))
             (hstr_field kwargs ''to_table''))
             (hstr_field kwargs ''to_column''))
             (hstr_field kwargs ''type'') of
        Inl errs \<Rightarrow> Inl errs
      | Inr obj \<Rightarrow> Inr (allocate obj st))"

definition DatabaseSchema_object :: "nat list \<Rightarrow> nat list \<Rightarrow> model_object" where
  "DatabaseSchema_object ts rs =
     (DatabaseSchema_class,
      [(attr_tables, HList (map HRef ts)), (attr_relationships, HList (map HRef rs))])"

definition DatabaseSchema_new ::
  "(string \<times> hval) list \<Rightarrow> store \<Rightarrow> (nat \<times> store) validated" where
  "DatabaseSchema_new kwargs st =
     (case new_list_field (instance_item Table_class ''Table'' Table_new)
             kwargs ''tables'' st of
        Inl errs \<Rightarrow>
          Inl (errs @ errors_of
            (new_list_field (instance_item Relationship_class ''Relationship'' Relationship_new)
               kwargs ''relationships'' st))
      | Inr (ts, st1) \<Rightarrow>
          (case new_list_field
                  (instance_item Relationship_class ''Relationship'' Relationship_new)
                  kwargs ''relationships'' st1 of
             Inl errs \<Rightarrow> Inl errs
           | Inr (rs, st2) \<Rightarrow> Inr (allocate (DatabaseSchema_object ts rs) st2)))"

text \<open>
  The specification's "missing required field or wrongly-typed field", as predicates on
  the keyword arguments, written without the constructors above: a required field offends
  when it is absent or its value is not of the declared type, an optional field when it is
  present with a value not of the declared type. A value is of the type \<^verbatim>\<open>Column\<close> when it
  is an instance of the class or a dictionary none of whose \<^verbatim>\<open>Column\<close> fields offends,
  and likewise for \<^verbatim>\<open>Relationship\<close> and \<^verbatim>\<open>Table\<close>; a list field offends when it is
  absent, when its value is not a list, and when an element of the list is not of the
  element type.
\<close>

definition offends_str :: "(string \<times> pyval) list \<Rightarrow> string \<Rightarrow> bool" where
  "offends_str kwargs field =
     (case map_of kwargs field of Some (PyStr s) \<Rightarrow> False | _ \<Rightarrow> True)"

definition offends_bool :: "(string \<times> pyval) list \<Rightarrow> string \<Rightarrow> bool" where
  "offends_bool kwargs field =
     (case map_of kwargs field of None \<Rightarrow> False | Some (PyBool b) \<Rightarrow> False | _ \<Rightarrow> True)"

definition offends_list ::
  "(pyval \<Rightarrow> bool) \<Rightarrow> (string \<times> pyval) list \<Rightarrow> string \<Rightarrow> bool" where
  "offends_list of_type kwargs field =
     (case map_of kwargs field of
        Some (PyList vs) \<Rightarrow> list_ex (\<lambda>v. \<not> of_type v) vs
      | _ \<Rightarrow> True)"

definition Column_typed :: "pyval \<Rightarrow> bool" where
  "Column_typed v =
     (case v of
        PyColumn c \<Rightarrow> True
      | PyDict kwargs \<Rightarrow>
          \<not> offends_str kwargs ''name'' \<and> \<not> offends_str kwargs ''type''
          \<and> \<not> offends_bool kwargs ''is_primary_key''
          \<and> \<not> offends_bool kwargs ''is_foreign_key''
      | _ \<Rightarrow> False)"

definition Relationship_typed :: "pyval \<Rightarrow> bool" where
  "Relationship_typed v =
     (case v of
        PyRelationship r \<Rightarrow> True
      | PyDict kwargs \<Rightarrow>
          \<not> offends_str kwargs ''from_table'' \<and> \<not> offends_str kwargs ''from_column''
          \<and> \<not> offends_str kwargs ''to_table'' \<and> \<not> offends_str kwargs ''to_column''
          \<and> \<not> offends_str kwargs ''type''
      | _ \<Rightarrow> False)"

definition Table_typed :: "pyval \<Rightarrow> bool" where
  "Table_typed v =
     (case v of
        PyTable t \<Rightarrow> True
      | PyDict kwargs \<Rightarrow>
          \<not> offends_str kwargs ''name'' \<and> \<not> offends_list Column_typed kwargs ''columns''
      | _ \<Rightarrow> False)"

text \<open>
  Where the detail of a list field is located: at the field itself when the field is absent
  or its value is not a list, and otherwise at an element of the list that is not of the
  element type, or below that element.
\<close>

definition points_at_list ::
  "(pyval \<Rightarrow> bool) \<Rightarrow> (string \<times> pyval) list \<Rightarrow> string \<Rightarrow> loc_item list \<Rightarrow> bool" where
  "points_at_list of_type kwargs field loc =
     (case map_of kwargs field of
        Some (PyList vs) \<Rightarrow>
          (case loc of
             Key f # Index j # rest \<Rightarrow> f = field \<and> j < length vs \<and> \<not> of_type (vs ! j)
           | _ \<Rightarrow> False)
      | _ \<Rightarrow> loc = [Key field])"

section \<open>Facts about the library model\<close>

subsection \<open>Histograms\<close>

lemma u8_le_255: "(v::u8) \<le> 255"
proof -
  have "unat v < 256" using unsigned_less [of v, where 'a=nat] by simp
  then show ?thesis by (simp add: word_le_nat_alt)
qed

lemma indicator_level: "sum_list (map (\<lambda>level. if v = (of_nat level :: u8) then (1::nat) else 0) [0..<256]) = 1"
proof -
  have eq: "\<And>level. level \<in> {0..<256} \<Longrightarrow> (v = (of_nat level :: u8)) = (level = unat v)"
    by (auto simp: unat_of_nat)
  have "sum_list (map (\<lambda>level. if v = (of_nat level :: u8) then (1::nat) else 0) [0..<256])
      = (\<Sum>level\<in>{0..<256}. if v = (of_nat level :: u8) then (1::nat) else 0)"
    by (simp add: interv_sum_list_conv_sum_set_nat)
  also have "\<dots> = (\<Sum>level\<in>{0..<256}. if level = unat v then (1::nat) else 0)"
    by (rule sum.cong) (simp_all add: eq)
  also have "\<dots> = 1"
    using unsigned_less [of v, where 'a=nat] by simp
  finally show ?thesis .
qed

lemma sum_band_histogram: "sum_list (band_histogram vs) = length vs"
proof (induction vs)
  case Nil
  show ?case by (simp add: band_histogram_def)
next
  case (Cons v vs)
  have "sum_list (band_histogram (v # vs))
      = sum_list (map (\<lambda>level. count_list vs (of_nat level) + (if v = (of_nat level :: u8) then 1 else 0)) [0..<256])"
    unfolding band_histogram_def by (intro arg_cong [where f=sum_list] map_cong) auto
  also have "\<dots> = sum_list (band_histogram vs) + 1"
    unfolding band_histogram_def sum_list_addf indicator_level ..
  finally show ?case using Cons.IH by simp
qed

lemma weighted_level: "sum_list (map (\<lambda>level. level * (if v = (of_nat level :: u8) then (1::nat) else 0)) [0..<256]) = unat v"
proof -
  have eq: "\<And>level. level \<in> {0..<256} \<Longrightarrow> (v = (of_nat level :: u8)) = (level = unat v)"
    by (auto simp: unat_of_nat)
  have "sum_list (map (\<lambda>level. level * (if v = (of_nat level :: u8) then (1::nat) else 0)) [0..<256])
      = (\<Sum>level\<in>{0..<256}. level * (if v = (of_nat level :: u8) then (1::nat) else 0))"
    by (simp add: interv_sum_list_conv_sum_set_nat)
  also have "\<dots> = (\<Sum>level\<in>{0..<256}. if level = unat v then level else 0)"
    by (rule sum.cong) (simp_all add: eq)
  also have "\<dots> = unat v"
    using unsigned_less [of v, where 'a=nat] by simp
  finally show ?thesis .
qed

lemma enumerate_band_histogram:
  "map (\<lambda>(i, w). i * w) (enumerate 0 (band_histogram vs))
     = map (\<lambda>level. level * count_list vs (of_nat level)) [0..<256]"
  by (rule nth_equalityI) (simp_all add: band_histogram_def nth_enumerate_eq)

lemma weighted_band_histogram:
  "sum_list (map (\<lambda>(i, w). i * w) (enumerate 0 (band_histogram vs))) = sum_list (map unat vs)"
proof (induction vs)
  case Nil
  show ?case by (simp add: enumerate_band_histogram)
next
  case (Cons v vs)
  have "sum_list (map (\<lambda>level. level * count_list (v # vs) (of_nat level)) [0..<256])
      = sum_list (map (\<lambda>level. level * count_list vs (of_nat level)
            + level * (if v = (of_nat level :: u8) then 1 else 0)) [0..<256])"
    by (intro arg_cong [where f=sum_list] map_cong) auto
  also have "\<dots> = sum_list (map (\<lambda>level. level * count_list vs (of_nat level)) [0..<256]) + unat v"
    unfolding sum_list_addf weighted_level ..
  finally show ?case using Cons.IH by (simp add: enumerate_band_histogram)
qed

lemma convert_L_is_L: "\<exists>vs. Image_convert_L img = ImageL vs \<and> length vs = pixel_count img"
  by (cases img) simp_all

lemma average_brightness_gray:
  assumes "Image_convert_L img = ImageL vs"
  shows "average_brightness img =
    (if vs = [] then Inl ZeroDivisionError
     else Inr (real (sum_list (map unat vs)) / real (length vs)))"
  using assms
  by (simp add: average_brightness_def Image_histogram_def Let_def sum_band_histogram
      weighted_band_histogram del: sum_list_eq_0_iff)

lemma sum_unat_le: "sum_list (map unat (vs :: u8 list)) \<le> 255 * length vs"
proof (induction vs)
  case Nil
  show ?case by simp
next
  case (Cons v vs)
  have "unat v \<le> 255" using unsigned_less [of v, where 'a=nat] by simp
  with Cons.IH show ?case by simp
qed

lemma sum_unat_all_0: "\<forall>v\<in>set vs. v = (0::u8) \<Longrightarrow> sum_list (map unat vs) = 0"
  by (induction vs) simp_all

lemma sum_unat_all_255: "\<forall>v\<in>set vs. v = (255::u8) \<Longrightarrow> sum_list (map unat vs) = 255 * length vs"
  by (induction vs) simp_all

lemma weighted_sum_set:
  "(\<Sum>level = 0..255. level * count_list vs (of_nat level :: u8))
     = sum_list (map (\<lambda>(i, w). i * w) (enumerate 0 (band_histogram vs)))"
proof -
  have "{0..255::nat} = set [0..<256]" by auto
  then show ?thesis
    by (simp only: enumerate_band_histogram interv_sum_list_conv_sum_set_nat)
qed

section \<open>The average brightness\<close>

text \<open>
  Claim C2. Whenever the image has a pixel, the average brightness that lines 10 to 16
  compute is the weighted mean of the gray copy's histogram, the sum over the levels 0 to
  255 of level times the number of gray pixels at that level, divided by the number of
  pixels; it lies between 0 and 255; it is 0 when every gray pixel is 0 and 255 when every
  gray pixel is 255.
\<close>

theorem average_brightness_weighted_mean:
  assumes gray: "Image_convert_L img = ImageL vs" and pixels: "0 < pixel_count img"
  shows "\<exists>a. average_brightness img = Inr a
     \<and> a = real (\<Sum>level = 0..255. level * count_list vs (of_nat level)) / real (pixel_count img)
     \<and> 0 \<le> a \<and> a \<le> 255
     \<and> ((\<forall>v\<in>set vs. v = 0) \<longrightarrow> a = 0)
     \<and> ((\<forall>v\<in>set vs. v = 255) \<longrightarrow> a = 255)"
proof -
  from convert_L_is_L [of img] gray have len: "length vs = pixel_count img" by auto
  with pixels have ne: "vs \<noteq> []" by auto
  define a where "a = real (sum_list (map unat vs)) / real (length vs)"
  have avg: "average_brightness img = Inr a"
    using average_brightness_gray [OF gray] ne by (simp add: a_def)
  have mean: "a = real (\<Sum>level = 0..255. level * count_list vs (of_nat level)) / real (pixel_count img)"
    by (simp only: a_def weighted_sum_set weighted_band_histogram len)
  have lo: "0 \<le> a" by (simp add: a_def)
  have "real (sum_list (map unat vs)) \<le> real (255 * length vs)"
    using sum_unat_le [of vs] by (simp only: of_nat_le_iff)
  then have hi: "a \<le> 255"
    using ne by (simp add: a_def divide_le_eq)
  have black: "(\<forall>v\<in>set vs. v = 0) \<longrightarrow> a = 0"
    by (simp add: a_def sum_unat_all_0)
  have white: "(\<forall>v\<in>set vs. v = 255) \<longrightarrow> a = 255"
    using ne by (simp add: a_def sum_unat_all_255)
  from avg mean lo hi black white show ?thesis by blast
qed

theorem average_brightness_weighted_mean_witness:
  "\<exists>a. average_brightness (ImageRGB [(255, 255, 255), (0, 0, 0), (255, 255, 255), (255, 255, 255)]) = Inr a
     \<and> a = real (\<Sum>level = 0..255. level * count_list [255, 0, 255, 255] (of_nat level :: u8)) / 4
     \<and> 0 \<le> a \<and> a \<le> 255"
proof -
  have g: "Image_convert_L (ImageRGB [(255, 255, 255), (0, 0, 0), (255, 255, 255), (255, 255, 255)])
      = ImageL [255, 0, 255, 255]"
    by (simp add: rgb2l_def L24_def)
  have p: "0 < pixel_count (ImageRGB [(255, 255, 255), (0, 0, 0), (255, 255, 255), (255, 255, 255)])"
    by simp
  from average_brightness_weighted_mean [OF g p] show ?thesis by auto
qed

section \<open>Division by the pixel count\<close>

lemma convert_RGB_is_RGB: "\<exists>ps. Image_convert_RGB img = ImageRGB ps \<and> length ps = pixel_count img"
  by (cases img) simp_all

lemma autocontrast_not_zero_division: "ImageOps_autocontrast img \<noteq> Inl ZeroDivisionError"
  by (cases img) simp_all

lemma invert_not_zero_division: "ImageOps_invert img \<noteq> Inl ZeroDivisionError"
  by (cases img) simp_all

lemma average_brightness_cases:
  "average_brightness img =
     (if pixel_count img = 0 then Inl ZeroDivisionError
      else Inr (real (sum_list (map unat (case Image_convert_L img of ImageL vs \<Rightarrow> vs)))
                 / real (pixel_count img)))"
proof -
  from convert_L_is_L [of img] obtain vs
    where g: "Image_convert_L img = ImageL vs" and l: "length vs = pixel_count img" by blast
  show ?thesis using average_brightness_gray [OF g] by (simp add: g l [symmetric])
qed

lemma optimize_not_zero_division:
  assumes "0 < pixel_count img"
  shows "optimize_image_for_ocr img \<noteq> Inl ZeroDivisionError"
proof -
  from assms obtain a where avg: "average_brightness img = Inr a"
    by (simp add: average_brightness_cases)
  show ?thesis
    using avg autocontrast_not_zero_division invert_not_zero_division
    by (auto simp: optimize_image_for_ocr_def invert_if_dark_def split: sum.splits)
qed

lemma Image_open_has_pixels: "Image_open src = Inr img \<Longrightarrow> 0 < pixel_count img"
  by (cases src) (auto split: if_splits)

text \<open>
  Claim C9, as amended. Line 16 divides by the pixel count without a guard: lines 10 to 16
  raise ZeroDivisionError exactly for an image without a pixel, and for an image with at
  least one pixel the division yields a value and lines 10 to 32 do not end with
  ZeroDivisionError. The whole call, however, never ends with ZeroDivisionError: every
  image that line 5 returns has a pixel, and a file whose image has no pixel fails at
  line 5 with the decode error, before the division is reached. The claim as stated, a
  division-by-zero error rather than a decode error for an input with zero pixels, fails
  at such a file, shown after the theorem.
\<close>

theorem division_by_pixel_count:
  "(average_brightness img = Inl ZeroDivisionError \<longleftrightarrow> pixel_count img = 0)
   \<and> (0 < pixel_count img \<longrightarrow>
      (\<exists>a. average_brightness img = Inr a)
      \<and> optimize_image_for_ocr img \<noteq> Inl ZeroDivisionError)
   \<and> (Image_open src = Inr img \<longrightarrow> 0 < pixel_count img)
   \<and> (pixel_count img = 0 \<longrightarrow>
      optimize_image_for_ocr_file (EncodedImage img) = Inl UnidentifiedImageError)
   \<and> optimize_image_for_ocr_file src \<noteq> Inl ZeroDivisionError"
proof (intro conjI impI)
  show "average_brightness img = Inl ZeroDivisionError \<longleftrightarrow> pixel_count img = 0"
    by (simp add: average_brightness_cases)
next
  assume p: "0 < pixel_count img"
  then show "\<exists>a. average_brightness img = Inr a"
    by (simp add: average_brightness_cases)
  from p show "optimize_image_for_ocr img \<noteq> Inl ZeroDivisionError"
    by (rule optimize_not_zero_division)
next
  assume "Image_open src = Inr img"
  then show "0 < pixel_count img" by (rule Image_open_has_pixels)
next
  assume "pixel_count img = 0"
  then show "optimize_image_for_ocr_file (EncodedImage img) = Inl UnidentifiedImageError"
    by (simp add: optimize_image_for_ocr_file_def)
next
  show "optimize_image_for_ocr_file src \<noteq> Inl ZeroDivisionError"
  proof (cases "Image_open src")
    case (Inl e)
    then have "e \<noteq> ZeroDivisionError" by (cases src) (auto split: if_splits)
    with Inl show ?thesis by (simp add: optimize_image_for_ocr_file_def)
  next
    case (Inr opened)
    from optimize_not_zero_division [OF Image_open_has_pixels [OF Inr]] Inr
    show ?thesis by (simp add: optimize_image_for_ocr_file_def)
  qed
qed

theorem zero_pixel_file_counterexample:
  "optimize_image_for_ocr_file (EncodedImage (ImageRGB [])) = Inl UnidentifiedImageError
   \<and> optimize_image_for_ocr_file (EncodedImage (ImageRGB [])) \<noteq> Inl ZeroDivisionError"
  by (simp add: optimize_image_for_ocr_file_def)

theorem division_by_pixel_count_witness:
  "(\<exists>a. average_brightness (ImageL [7]) = Inr a)
   \<and> optimize_image_for_ocr (ImageL [7]) \<noteq> Inl ZeroDivisionError
   \<and> optimize_image_for_ocr_file (EncodedImage (ImageL [7])) \<noteq> Inl ZeroDivisionError
   \<and> optimize_image_for_ocr_file (EncodedImage (ImageL [])) = Inl UnidentifiedImageError"
  using division_by_pixel_count [of "ImageL [7]" "EncodedImage (ImageL [7])"]
    division_by_pixel_count [of "ImageL []" "EncodedImage (ImageL [])"]
  by simp

section \<open>The inversion branch\<close>

lemma invert_value_neq: "invert_value v \<noteq> v"
proof
  assume "invert_value v = v"
  then have "255 = v + v" by (simp add: invert_value_def diff_eq_eq)
  then have "255 = 2 * v" by simp
  then have "even (255 :: u8)" by (metis dvd_triv_left)
  then show False by simp
qed

lemma invert_value_involution: "invert_value (invert_value v) = v"
  by (simp add: invert_value_def)

lemma invert_RGB_eq:
  "ImageOps_invert (ImageRGB ps) = Inr (ImageRGB (map (\<lambda>(r, g, b). (255 - r, 255 - g, 255 - b)) ps))"
  by (simp add: invert_value_def)

lemma invert_pixels_neq:
  "ps \<noteq> [] \<Longrightarrow> map (\<lambda>(r, g, b). (255 - r, 255 - g, 255 - b)) ps \<noteq> (ps :: rgb list)"
proof (cases ps)
  case Nil
  assume "ps \<noteq> []"
  with Nil show ?thesis by simp
next
  case (Cons p qs)
  obtain r g b where p: "p = (r, g, b)" by (cases p)
  have "255 - r \<noteq> r" using invert_value_neq [of r] by (simp add: invert_value_def)
  then show ?thesis by (simp add: Cons p)
qed

lemma count_pair_le: "a \<noteq> b \<Longrightarrow> count_list vs a + count_list vs b \<le> length vs"
  by (induction vs) auto

lemma sum_two_levels:
  "count_list vs 0 + count_list vs 255 = length vs \<Longrightarrow>
     sum_list (map unat (vs :: u8 list)) = 255 * count_list vs 255"
proof (induction vs)
  case Nil
  show ?case by simp
next
  case (Cons v vs)
  have le: "count_list vs 0 + count_list vs 255 \<le> length vs"
    by (rule count_pair_le) simp
  consider "v = 0" | "v = 255" | "v \<noteq> 0" "v \<noteq> 255" by blast
  then show ?case
  proof cases
    case 1
    with Cons.prems have "count_list vs 0 + count_list vs 255 = length vs" by simp
    with Cons.IH 1 show ?thesis by simp
  next
    case 2
    with Cons.prems have "count_list vs 0 + count_list vs 255 = length vs" by simp
    with Cons.IH 2 show ?thesis by simp
  next
    case 3
    with Cons.prems le show ?thesis by simp
  qed
qed

lemma half_black_half_white:
  assumes gray: "Image_convert_L img = ImageL vs" and ne: "vs \<noteq> []"
    and black: "2 * count_list vs 0 = length vs" and white: "2 * count_list vs 255 = length vs"
  shows "average_brightness img = Inr (255 / 2)"
proof -
  from black white have "count_list vs 0 + count_list vs 255 = length vs" by simp
  then have "sum_list (map unat vs) = 255 * count_list vs 255" by (rule sum_two_levels)
  then have "2 * sum_list (map unat vs) = 255 * length vs" using white by simp
  then have "2 * real (sum_list (map unat vs)) = 255 * real (length vs)"
    by (metis of_nat_mult of_nat_numeral)
  then have "real (sum_list (map unat vs)) / real (length vs) = 255 / 2"
    using ne by (simp add: divide_eq_eq)
  then show ?thesis using average_brightness_gray [OF gray] ne by simp
qed

text \<open>
  Claim C1. When lines 10 to 16 compute an average \<open>a\<close>, the image after the
  \<^verbatim>\<open>if\<close> of lines 20 to 25 is the RGB-converted image with every band value \<open>v\<close>
  replaced by \<open>255 - v\<close> when \<open>a < 128\<close>, and the input image itself otherwise; it is the
  inverted image if and only if \<open>a < 128\<close>. In particular, when half of the gray pixels
  are 0 and the other half are 255 the average is 127.5 and the image is inverted.
\<close>

theorem inversion_iff_dark:
  "(average_brightness img = Inr a \<and> Image_convert_RGB img = ImageRGB ps \<longrightarrow>
      (a < 128 \<longrightarrow>
         invert_if_dark img = Inr (ImageRGB (map (\<lambda>(r, g, b). (255 - r, 255 - g, 255 - b)) ps)))
      \<and> (\<not> a < 128 \<longrightarrow> invert_if_dark img = Inr img)
      \<and> (invert_if_dark img = Inr (ImageRGB (map (\<lambda>(r, g, b). (255 - r, 255 - g, 255 - b)) ps))
           \<longleftrightarrow> a < 128))
   \<and> (Image_convert_L img = ImageL vs \<and> vs \<noteq> []
        \<and> 2 * count_list vs 0 = length vs \<and> 2 * count_list vs 255 = length vs \<longrightarrow>
      average_brightness img = Inr (255 / 2)
      \<and> invert_if_dark img = ImageOps_invert (Image_convert_RGB img))"
proof (intro conjI impI)
  assume h: "average_brightness img = Inr a \<and> Image_convert_RGB img = ImageRGB ps"
  show dark: "a < 128 \<Longrightarrow>
      invert_if_dark img = Inr (ImageRGB (map (\<lambda>(r, g, b). (255 - r, 255 - g, 255 - b)) ps))"
    using h by (simp add: invert_if_dark_def invert_RGB_eq del: ImageOps_invert.simps)
  show light: "\<not> a < 128 \<Longrightarrow> invert_if_dark img = Inr img"
    using h by (simp add: invert_if_dark_def)
  have "pixel_count img \<noteq> 0"
    using h by (auto simp: average_brightness_cases split: if_splits)
  with convert_RGB_is_RGB [of img] h have ne: "ps \<noteq> []" by auto
  have differ: "img \<noteq> ImageRGB (map (\<lambda>(r, g, b). (255 - r, 255 - g, 255 - b)) ps)"
  proof
    assume e: "img = ImageRGB (map (\<lambda>(r, g, b). (255 - r, 255 - g, 255 - b)) ps)"
    have "Image_convert_RGB img = ImageRGB (map (\<lambda>(r, g, b). (255 - r, 255 - g, 255 - b)) ps)"
      by (subst e) simp
    with h have "map (\<lambda>(r, g, b). (255 - r, 255 - g, 255 - b)) ps = ps" by simp
    with invert_pixels_neq [OF ne] show False by contradiction
  qed
  show "invert_if_dark img = Inr (ImageRGB (map (\<lambda>(r, g, b). (255 - r, 255 - g, 255 - b)) ps))
      \<longleftrightarrow> a < 128"
  proof (cases "a < 128")
    case True
    with dark show ?thesis by simp
  next
    case False
    with light differ show ?thesis by simp
  qed
next
  assume h: "Image_convert_L img = ImageL vs \<and> vs \<noteq> []
      \<and> 2 * count_list vs 0 = length vs \<and> 2 * count_list vs 255 = length vs"
  then show avg: "average_brightness img = Inr (255 / 2)"
    by (intro half_black_half_white [of img vs]) simp_all
  show "invert_if_dark img = ImageOps_invert (Image_convert_RGB img)"
    by (simp add: invert_if_dark_def avg)
qed

theorem inversion_iff_dark_witness:
  "average_brightness (ImageL [0, 255, 255, 0]) = Inr (255 / 2)
   \<and> invert_if_dark (ImageL [0, 255, 255, 0])
       = Inr (ImageRGB [(255, 255, 255), (0, 0, 0), (0, 0, 0), (255, 255, 255)])
   \<and> average_brightness (ImageL [128]) = Inr 128
   \<and> invert_if_dark (ImageL [128]) = Inr (ImageL [128])"
proof -
  have a1: "average_brightness (ImageL [0, 255, 255, 0]) = Inr (255 / 2)"
    using inversion_iff_dark [of "ImageL [0, 255, 255, 0]" 0 "[]" "[0, 255, 255, 0]"] by simp
  have a2: "average_brightness (ImageL [128]) = Inr 128"
    by (simp add: average_brightness_cases)
  have c1: "Image_convert_RGB (ImageL [0, 255, 255, 0])
      = ImageRGB [(0, 0, 0), (255, 255, 255), (255, 255, 255), (0, 0, 0)]" by simp
  have c2: "Image_convert_RGB (ImageL [128]) = ImageRGB [(128, 128, 128)]" by simp
  show ?thesis
    using a1 a2
      inversion_iff_dark [of "ImageL [0, 255, 255, 0]" "255 / 2"
        "[(0, 0, 0), (255, 255, 255), (255, 255, 255), (0, 0, 0)]" "[]"]
      inversion_iff_dark [of "ImageL [128]" 128 "[(128, 128, 128)]" "[]"]
    by simp
qed

section \<open>Inverting twice\<close>

text \<open>
  Claim C3. Inversion is an involution: inverting an RGB image (or a gray one) succeeds,
  and inverting the result gives back the original image, every band value of every pixel
  as it was; on a single value, \<open>255 - (255 - v) = v\<close>. For the routine: when the image
  is dark, inverting the image that stands after the \<^verbatim>\<open>if\<close> of lines 20 to 25 gives back
  the RGB-converted input, before the contrast stretch.
\<close>

theorem invert_involution:
  "(\<exists>y. ImageOps_invert (ImageRGB ps) = Inr y \<and> ImageOps_invert y = Inr (ImageRGB ps))
   \<and> (\<exists>y. ImageOps_invert (ImageL vs) = Inr y \<and> ImageOps_invert y = Inr (ImageL vs))
   \<and> invert_value (invert_value v) = v
   \<and> (average_brightness img = Inr a \<and> a < 128 \<longrightarrow>
        (\<exists>y. invert_if_dark img = Inr y \<and> ImageOps_invert y = Inr (Image_convert_RGB img)))"
proof -
  have rgb: "map ((\<lambda>(r, g, b). (invert_value r, invert_value g, invert_value b))
      \<circ> (\<lambda>(r, g, b). (invert_value r, invert_value g, invert_value b))) qs = qs" for qs
    by (induction qs) (auto simp: invert_value_involution)
  have gray: "map (invert_value \<circ> invert_value) vs = vs"
    by (induction vs) (auto simp: invert_value_involution)
  have twice: "\<exists>y. ImageOps_invert (ImageRGB qs) = Inr y \<and> ImageOps_invert y = Inr (ImageRGB qs)"
    for qs
    using rgb [of qs] by simp
  have routine: "average_brightness img = Inr a \<and> a < 128 \<longrightarrow>
        (\<exists>y. invert_if_dark img = Inr y \<and> ImageOps_invert y = Inr (Image_convert_RGB img))"
  proof
    assume h: "average_brightness img = Inr a \<and> a < 128"
    from convert_RGB_is_RGB [of img] obtain qs where c: "Image_convert_RGB img = ImageRGB qs"
      by blast
    from h have "invert_if_dark img = ImageOps_invert (ImageRGB qs)"
      by (simp add: invert_if_dark_def c)
    with twice [of qs] c
    show "\<exists>y. invert_if_dark img = Inr y \<and> ImageOps_invert y = Inr (Image_convert_RGB img)"
      by auto
  qed
  from twice [of ps] gray routine show ?thesis
    by (simp add: invert_value_involution)
qed

theorem invert_involution_witness:
  "ImageOps_invert (ImageRGB [(0, 127, 255), (10, 20, 30)]) = Inr (ImageRGB [(255, 128, 0), (245, 235, 225)])
   \<and> ImageOps_invert (ImageRGB [(255, 128, 0), (245, 235, 225)]) = Inr (ImageRGB [(0, 127, 255), (10, 20, 30)])
   \<and> (\<exists>y. invert_if_dark (ImageL [3, 200]) = Inr y
        \<and> ImageOps_invert y = Inr (ImageRGB [(3, 3, 3), (200, 200, 200)]))"
proof -
  have a: "average_brightness (ImageL [3, 200]) = Inr (203 / 2) \<and> (203 / 2 :: real) < 128"
    by (simp add: average_brightness_cases)
  from invert_involution [of "[(0, 127, 255), (10, 20, 30)]" "[]" 0 "ImageL [3, 200]" "203 / 2"] a
  show ?thesis by (simp add: invert_value_def)
qed

section \<open>Contrast stretch\<close>

lemma fold_min_from_0: "fold min vs (0::u8) = 0"
  by (induction vs) (simp_all add: min_def)

lemma fold_min_0: "(0::u8) \<in> set vs \<Longrightarrow> fold min vs a = 0"
proof (induction vs arbitrary: a)
  case Nil
  then show ?case by simp
next
  case (Cons v vs)
  show ?case
  proof (cases "v = 0")
    case True
    have "min 0 a = (0::u8)" by (simp add: min_def)
    with True show ?thesis by (simp add: fold_min_from_0)
  next
    case False
    with Cons.prems have "0 \<in> set vs" by simp
    then show ?thesis by (simp add: Cons.IH)
  qed
qed

lemma fold_max_from_255: "fold max vs (255::u8) = 255"
proof (induction vs)
  case Nil
  show ?case by simp
next
  case (Cons v vs)
  have "max v 255 = 255" using u8_le_255 [of v] by (simp add: max_def)
  with Cons.IH show ?case by simp
qed

lemma fold_max_255: "(255::u8) \<in> set vs \<Longrightarrow> fold max vs a = 255"
proof (induction vs arbitrary: a)
  case Nil
  then show ?case by simp
next
  case (Cons v vs)
  show ?case
  proof (cases "v = 255")
    case True
    have "max 255 a = 255" using u8_le_255 [of a] by (simp add: max_def)
    with True show ?thesis by (simp add: fold_max_from_255)
  next
    case False
    with Cons.prems have "255 \<in> set vs" by simp
    then show ?thesis by (simp add: Cons.IH)
  qed
qed

lemma stretch_full_range: "stretch 0 255 v = v"
proof -
  have "uint v < 256" using unsigned_less [of v, where 'a=int] by simp
  then show ?thesis by (simp add: stretch_def Let_def)
qed

lemma autocontrast_band_full_range:
  "0 \<in> set vs \<Longrightarrow> 255 \<in> set vs \<Longrightarrow> autocontrast_band vs = vs"
  by (simp add: autocontrast_band_def lowest_def highest_def fold_min_0 fold_max_255
      stretch_full_range map_idI)

lemma zip_bands: "zip (map fst ps) (zip (map (fst \<circ> snd) ps) (map (snd \<circ> snd) ps)) = ps"
  by (induction ps) auto

lemma autocontrast_image_full_range:
  assumes m: "mode img = ''L'' \<or> mode img = ''RGB''"
    and full: "\<forall>band\<in>set (bands img). 0 \<in> set band \<and> 255 \<in> set band"
  shows "ImageOps_autocontrast img = Inr img"
proof (cases img)
  case (ImageL ps)
  with full show ?thesis by (simp add: autocontrast_band_full_range)
next
  case (ImageRGB ps)
  with full have "autocontrast_band (map fst ps) = map fst ps"
    "autocontrast_band (map (fst \<circ> snd) ps) = map (fst \<circ> snd) ps"
    "autocontrast_band (map (snd \<circ> snd) ps) = map (snd \<circ> snd) ps"
    by (simp_all add: autocontrast_band_full_range del: set_map)
  then show ?thesis by (simp add: ImageRGB zip_bands)
next
  case (ImageRGBA ps)
  with m show ?thesis by simp
next
  case (ImageP pal ps)
  with m show ?thesis by simp
qed

lemma invert_value_ends: "invert_value 255 = 0" "invert_value 0 = 255"
  by (simp_all add: invert_value_def)

lemma inverted_band_full:
  assumes "0 \<in> f ` set ps" and "255 \<in> f ` set ps"
  shows "0 \<in> (\<lambda>p. invert_value (f p)) ` set ps \<and> 255 \<in> (\<lambda>p. invert_value (f p)) ` set ps"
proof -
  from assms obtain p q where p: "p \<in> set ps" "f p = 0" and q: "q \<in> set ps" "f q = 255"
    by auto
  have "invert_value (f q) = 0" "invert_value (f p) = 255"
    by (simp_all add: p q invert_value_ends)
  with p q show ?thesis by (metis (mono_tags, lifting) image_eqI)
qed

lemma inverted_RGB_full:
  assumes "\<forall>band\<in>set (bands (ImageRGB ps)). 0 \<in> set band \<and> 255 \<in> set band"
  shows "\<forall>band\<in>set (bands (ImageRGB
      (map (\<lambda>(r, g, b). (invert_value r, invert_value g, invert_value b)) ps))).
    0 \<in> set band \<and> 255 \<in> set band"
proof -
  have r: "map fst (map (\<lambda>(r, g, b). (invert_value r, invert_value g, invert_value b)) ps)
      = map (\<lambda>p. invert_value (fst p)) ps"
    and g: "map (fst \<circ> snd) (map (\<lambda>(r, g, b). (invert_value r, invert_value g, invert_value b)) ps)
      = map (\<lambda>p. invert_value ((fst \<circ> snd) p)) ps"
    and b: "map (snd \<circ> snd) (map (\<lambda>(r, g, b). (invert_value r, invert_value g, invert_value b)) ps)
      = map (\<lambda>p. invert_value ((snd \<circ> snd) p)) ps"
    by (simp_all add: case_prod_unfold)
  from assms have "0 \<in> fst ` set ps" "255 \<in> fst ` set ps"
    "0 \<in> (fst \<circ> snd) ` set ps" "255 \<in> (fst \<circ> snd) ` set ps"
    "0 \<in> (snd \<circ> snd) ` set ps" "255 \<in> (snd \<circ> snd) ` set ps"
    by simp_all
  then show ?thesis
    using inverted_band_full [of fst ps] inverted_band_full [of "fst \<circ> snd" ps]
      inverted_band_full [of "snd \<circ> snd" ps]
    by (simp only: bands.simps r g b list.set ball_simps set_map)
qed

lemma converted_L_full:
  assumes "0 \<in> set vs" and "255 \<in> set vs"
  shows "\<forall>band\<in>set (bands (ImageRGB (map (\<lambda>v. (v, v, v)) vs))). 0 \<in> set band \<and> 255 \<in> set band"
  using assms by (simp add: comp_def)

lemma stretch_step_is_identity:
  assumes m: "mode img = ''L'' \<or> mode img = ''RGB''"
    and full: "\<forall>band\<in>set (bands img). 0 \<in> set band \<and> 255 \<in> set band"
  shows "optimize_image_for_ocr img = invert_if_dark img"
proof (cases "invert_if_dark img")
  case (Inl e)
  then show ?thesis by (simp add: optimize_image_for_ocr_def)
next
  case (Inr y)
  have "ImageOps_autocontrast y = Inr y"
  proof (cases "y = img")
    case True
    with m full autocontrast_image_full_range [of img] show ?thesis by simp
  next
    case False
    with Inr have inv: "ImageOps_invert (Image_convert_RGB img) = Inr y"
      by (auto simp: invert_if_dark_def split: sum.splits if_splits)
    have "mode y = ''RGB'' \<and> (\<forall>band\<in>set (bands y). 0 \<in> set band \<and> 255 \<in> set band)"
    proof (cases img)
      case (ImageL vs)
      with full have "0 \<in> set vs" "255 \<in> set vs" by simp_all
      from inverted_RGB_full [OF converted_L_full [OF this]]
      have "\<forall>band\<in>set (bands (ImageRGB
          (map (\<lambda>(r, g, b). (invert_value r, invert_value g, invert_value b))
            (map (\<lambda>v. (v, v, v)) vs)))). 0 \<in> set band \<and> 255 \<in> set band" .
      moreover from inv have y: "y = ImageRGB
          (map (\<lambda>(r, g, b). (invert_value r, invert_value g, invert_value b))
            (map (\<lambda>v. (v, v, v)) vs))"
        by (simp add: ImageL)
      ultimately have "\<forall>band\<in>set (bands y). 0 \<in> set band \<and> 255 \<in> set band"
        by (simp only: y)
      moreover have "mode y = ''RGB''" by (simp add: y)
      ultimately show ?thesis by blast
    next
      case (ImageRGB ps)
      from full have "\<forall>band\<in>set (bands (ImageRGB ps)). 0 \<in> set band \<and> 255 \<in> set band"
        by (simp only: ImageRGB)
      from inverted_RGB_full [OF this]
      have "\<forall>band\<in>set (bands (ImageRGB
          (map (\<lambda>(r, g, b). (invert_value r, invert_value g, invert_value b)) ps))).
          0 \<in> set band \<and> 255 \<in> set band" .
      moreover from inv have y: "y = ImageRGB
          (map (\<lambda>(r, g, b). (invert_value r, invert_value g, invert_value b)) ps)"
        by (simp add: ImageRGB)
      ultimately have "\<forall>band\<in>set (bands y). 0 \<in> set band \<and> 255 \<in> set band"
        by (simp only: y)
      moreover have "mode y = ''RGB''" by (simp add: y)
      ultimately show ?thesis by blast
    next
      case (ImageRGBA ps)
      with m show ?thesis by simp
    next
      case (ImageP pal ps)
      with m show ?thesis by simp
    qed
    with autocontrast_image_full_range [of y] show ?thesis by simp
  qed
  with Inr show ?thesis by (simp add: optimize_image_for_ocr_def)
qed

text \<open>
  Claim C4. Contrast stretch changes nothing in a band that already contains both the
  value 0 and the value 255; an image of mode L or RGB all of whose bands contain both
  values comes back from \<^verbatim>\<open>ImageOps.autocontrast\<close> identical. For the routine: on such
  an image line 29 changes nothing, the saved image is the image that stands after the
  \<^verbatim>\<open>if\<close> of lines 20 to 25.
\<close>

theorem autocontrast_fully_stretched:
  "(0 \<in> set vs \<and> 255 \<in> set vs \<longrightarrow> autocontrast_band vs = vs)
   \<and> ((mode img = ''L'' \<or> mode img = ''RGB'')
        \<and> (\<forall>band\<in>set (bands img). 0 \<in> set band \<and> 255 \<in> set band) \<longrightarrow>
      ImageOps_autocontrast img = Inr img
      \<and> optimize_image_for_ocr img = invert_if_dark img)"
proof (intro conjI impI)
  assume "0 \<in> set vs \<and> 255 \<in> set vs"
  then show "autocontrast_band vs = vs" by (simp add: autocontrast_band_full_range)
next
  assume h: "(mode img = ''L'' \<or> mode img = ''RGB'')
      \<and> (\<forall>band\<in>set (bands img). 0 \<in> set band \<and> 255 \<in> set band)"
  then show "ImageOps_autocontrast img = Inr img"
    by (intro autocontrast_image_full_range) simp_all
  from h show "optimize_image_for_ocr img = invert_if_dark img"
    by (intro stretch_step_is_identity) simp_all
qed

theorem autocontrast_fully_stretched_witness:
  "autocontrast_band [0, 90, 255, 17] = [0, 90, 255, 17]
   \<and> ImageOps_autocontrast (ImageRGB [(0, 255, 0), (255, 0, 255), (31, 32, 33)])
      = Inr (ImageRGB [(0, 255, 0), (255, 0, 255), (31, 32, 33)])
   \<and> optimize_image_for_ocr (ImageRGB [(0, 255, 0), (255, 0, 255), (31, 32, 33)])
      = invert_if_dark (ImageRGB [(0, 255, 0), (255, 0, 255), (31, 32, 33)])"
  using autocontrast_fully_stretched [of "[0, 90, 255, 17]" "ImageL []"]
    autocontrast_fully_stretched [of "[]" "ImageRGB [(0, 255, 0), (255, 0, 255), (31, 32, 33)]"]
  by simp

section \<open>Uniform images\<close>

lemma fold_min_replicate: "fold min (replicate n v) a = (if n = 0 then a else min v (a::u8))"
  by (induction n arbitrary: a) (auto simp: min_def simp del: fold_replicate)

lemma fold_max_replicate: "fold max (replicate n v) a = (if n = 0 then a else max v (a::u8))"
  by (induction n arbitrary: a) (auto simp: max_def simp del: fold_replicate)

lemma stretch_uniform: "stretch v v x = x"
  by (simp add: stretch_def)

lemma autocontrast_band_uniform: "autocontrast_band (replicate n v) = replicate n v"
proof (cases "n = 0")
  case True
  then show ?thesis by (simp add: autocontrast_band_def)
next
  case False
  have "min v 255 = v" using u8_le_255 [of v] by (simp add: min_def)
  moreover have "max v 0 = v" by (simp add: max_def)
  ultimately have "lowest (replicate n v) = v" "highest (replicate n v) = v"
    using False by (simp_all add: lowest_def highest_def fold_min_replicate fold_max_replicate del: fold_replicate)
  then show ?thesis by (simp add: autocontrast_band_def stretch_uniform)
qed

lemma zip_replicate3: "zip (replicate n a) (zip (replicate n b) (replicate n c)) = replicate n (a, b, c)"
  by (induction n) simp_all

lemma autocontrast_uniform_L: "ImageOps_autocontrast (ImageL (replicate n v)) = Inr (ImageL (replicate n v))"
  by (simp add: autocontrast_band_uniform)

lemma autocontrast_uniform_RGB:
  "ImageOps_autocontrast (ImageRGB (replicate n c)) = Inr (ImageRGB (replicate n c))"
proof -
  obtain r g b where c: "c = (r, g, b)" by (cases c)
  show ?thesis by (simp add: c autocontrast_band_uniform zip_replicate3)
qed

lemma rgb2l_white: "rgb2l (255, 255, 255) = 255"
  by (simp add: rgb2l_def L24_def)

lemma rgb2l_black: "rgb2l (0, 0, 0) = 0"
  by (simp add: rgb2l_def L24_def)

lemma average_white_L: "0 < n \<Longrightarrow> average_brightness (ImageL (replicate n 255)) = Inr 255"
  by (simp add: average_brightness_cases sum_list_replicate)

lemma average_white_RGB:
  "0 < n \<Longrightarrow> average_brightness (ImageRGB (replicate n (255, 255, 255))) = Inr 255"
  by (simp add: average_brightness_cases sum_list_replicate rgb2l_white)

lemma average_gray_white:
  assumes "Image_convert_L img = ImageL (replicate n 255)" and "0 < n"
  shows "average_brightness img = Inr 255"
  using average_brightness_gray [OF assms(1)] assms(2) by (simp add: sum_list_replicate)

text \<open>
  Claim C5, as amended. For an image of \<open>n > 0\<close> pixels whose gray values are all 255,
  of whatever mode, the average brightness is 255 and the image is not inverted. Contrast
  stretch leaves every uniform image of mode L or RGB, whatever its single value, exactly
  as it is. So for an image of mode L or RGB with \<open>n > 0\<close> pixels in which every band
  value of every pixel is 255, the image that is saved is the input image, still all
  white. The claim as stated, that the saved output is the uniform all-white image for
  every input whose gray values are all 255, fails: an RGB image can have the gray value
  255 everywhere without being uniform, and is then stretched band by band; and an RGBA
  image is handed to line 29 unconverted, which raises. Both are shown after the theorem.
\<close>

theorem all_white_unchanged:
  "(Image_convert_L img = ImageL (replicate n 255) \<and> 0 < n \<longrightarrow>
      average_brightness img = Inr 255 \<and> invert_if_dark img = Inr img)
   \<and> (0 < n \<longrightarrow>
      average_brightness (ImageL (replicate n 255)) = Inr 255
      \<and> invert_if_dark (ImageL (replicate n 255)) = Inr (ImageL (replicate n 255))
      \<and> optimize_image_for_ocr (ImageL (replicate n 255)) = Inr (ImageL (replicate n 255))
      \<and> average_brightness (ImageRGB (replicate n (255, 255, 255))) = Inr 255
      \<and> invert_if_dark (ImageRGB (replicate n (255, 255, 255)))
          = Inr (ImageRGB (replicate n (255, 255, 255)))
      \<and> optimize_image_for_ocr (ImageRGB (replicate n (255, 255, 255)))
          = Inr (ImageRGB (replicate n (255, 255, 255))))
   \<and> ImageOps_autocontrast (ImageL (replicate n v)) = Inr (ImageL (replicate n v))
   \<and> ImageOps_autocontrast (ImageRGB (replicate n c)) = Inr (ImageRGB (replicate n c))"
proof (intro conjI impI)
  assume "Image_convert_L img = ImageL (replicate n 255) \<and> 0 < n"
  then show a: "average_brightness img = Inr 255"
    using average_gray_white [of img n] by simp
  show "invert_if_dark img = Inr img"
    by (simp add: invert_if_dark_def a)
next
  assume n: "0 < n"
  show aL: "average_brightness (ImageL (replicate n 255)) = Inr 255"
    using n by (rule average_white_L)
  show iL: "invert_if_dark (ImageL (replicate n 255)) = Inr (ImageL (replicate n 255))"
    by (simp add: invert_if_dark_def aL)
  show "optimize_image_for_ocr (ImageL (replicate n 255)) = Inr (ImageL (replicate n 255))"
    by (simp only: optimize_image_for_ocr_def iL sum.case autocontrast_uniform_L)
  show aR: "average_brightness (ImageRGB (replicate n (255, 255, 255))) = Inr 255"
    using n by (rule average_white_RGB)
  show iR: "invert_if_dark (ImageRGB (replicate n (255, 255, 255)))
      = Inr (ImageRGB (replicate n (255, 255, 255)))"
    by (simp add: invert_if_dark_def aR)
  show "optimize_image_for_ocr (ImageRGB (replicate n (255, 255, 255)))
      = Inr (ImageRGB (replicate n (255, 255, 255)))"
    by (simp only: optimize_image_for_ocr_def iR sum.case autocontrast_uniform_RGB)
next
  show "ImageOps_autocontrast (ImageL (replicate n v)) = Inr (ImageL (replicate n v))"
    by (rule autocontrast_uniform_L)
  show "ImageOps_autocontrast (ImageRGB (replicate n c)) = Inr (ImageRGB (replicate n c))"
    by (rule autocontrast_uniform_RGB)
qed

theorem all_white_unchanged_witness:
  "invert_if_dark (ImageRGBA [((255, 255, 255), 255), ((255, 255, 255), 255)])
     = Inr (ImageRGBA [((255, 255, 255), 255), ((255, 255, 255), 255)])
   \<and> average_brightness (ImageRGB [(255, 255, 255), (255, 255, 255)]) = Inr 255
   \<and> optimize_image_for_ocr (ImageRGB [(255, 255, 255), (255, 255, 255)])
       = Inr (ImageRGB [(255, 255, 255), (255, 255, 255)])
   \<and> optimize_image_for_ocr (ImageL [255, 255]) = Inr (ImageL [255, 255])
   \<and> ImageOps_autocontrast (ImageL [9, 9]) = Inr (ImageL [9, 9])"
proof -
  have two: "replicate 2 x = [x, x]" for x :: 'a
    by (simp add: numeral_2_eq_2)
  show ?thesis
    using all_white_unchanged
      [of "ImageRGBA [((255, 255, 255), 255), ((255, 255, 255), 255)]" 2 9 "(255, 255, 255)"]
    by (simp add: two rgb2l_white)
qed

theorem all_white_counterexample:
  "average_brightness (ImageRGB [(255, 255, 251), (255, 255, 255)]) = Inr 255
   \<and> optimize_image_for_ocr (ImageRGB [(255, 255, 251), (255, 255, 255)])
       = Inr (ImageRGB [(255, 255, 0), (255, 255, 255)])
   \<and> average_brightness (ImageRGBA [((255, 255, 255), 255)]) = Inr 255
   \<and> optimize_image_for_ocr (ImageRGBA [((255, 255, 255), 255)]) = Inl OSError"
proof -
  have g: "rgb2l (255, 255, 251) = 255" "rgb2l (255, 255, 255) = 255"
    by (simp_all add: rgb2l_def L24_def)
  have a: "average_brightness (ImageRGB [(255, 255, 251), (255, 255, 255)]) = Inr 255"
    by (simp add: average_brightness_cases g)
  have b: "average_brightness (ImageRGBA [((255, 255, 255), 255)]) = Inr 255"
    by (simp add: average_brightness_cases g)
  have s: "autocontrast_band [251, 255] = [0, 255]" "autocontrast_band [255, 255] = [255, 255]"
    by (simp_all add: autocontrast_band_def lowest_def highest_def stretch_def Let_def)
  have o: "optimize_image_for_ocr (ImageRGB [(255, 255, 251), (255, 255, 255)])
       = Inr (ImageRGB [(255, 255, 0), (255, 255, 255)])"
    by (simp add: optimize_image_for_ocr_def invert_if_dark_def a s)
  have r: "optimize_image_for_ocr (ImageRGBA [((255, 255, 255), 255)]) = Inl OSError"
    by (simp add: optimize_image_for_ocr_def invert_if_dark_def b)
  from a o b r show ?thesis by simp
qed

section \<open>Modes\<close>

lemma autocontrast_RGB_mode:
  "mode y = ''RGB'' \<Longrightarrow> \<exists>out. ImageOps_autocontrast y = Inr out \<and> mode out = ''RGB''"
  by (cases y) simp_all

lemma invert_convert_RGB:
  "\<exists>y. ImageOps_invert (Image_convert_RGB img) = Inr y \<and> mode y = ''RGB''"
  using convert_RGB_is_RGB [of img] by auto

text \<open>
  Claim C10. The two branches treat the mode differently. When the average is below 128
  the image after the \<^verbatim>\<open>if\<close> has mode RGB whatever the mode of the input was (an alpha
  band or a palette is gone), the call succeeds and the saved image has mode RGB. When the
  average is at least 128 the image after the \<^verbatim>\<open>if\<close> is the input image itself, mode
  included.
\<close>

theorem dark_branch_gives_RGB:
  "average_brightness img = Inr a \<longrightarrow>
     (a < 128 \<longrightarrow>
        (\<exists>y. invert_if_dark img = Inr y \<and> mode y = ''RGB'')
        \<and> (\<exists>out. optimize_image_for_ocr img = Inr out \<and> mode out = ''RGB''))
     \<and> (128 \<le> a \<longrightarrow> invert_if_dark img = Inr img)"
proof (intro impI conjI)
  assume avg: "average_brightness img = Inr a" and dark: "a < 128"
  from invert_convert_RGB [of img] obtain y
    where y: "ImageOps_invert (Image_convert_RGB img) = Inr y" and m: "mode y = ''RGB''" by blast
  have i: "invert_if_dark img = Inr y"
    using avg dark y by (simp add: invert_if_dark_def)
  with m show "\<exists>y. invert_if_dark img = Inr y \<and> mode y = ''RGB''" by blast
  from autocontrast_RGB_mode [OF m] obtain out
    where "ImageOps_autocontrast y = Inr out" and "mode out = ''RGB''" by blast
  with i show "\<exists>out. optimize_image_for_ocr img = Inr out \<and> mode out = ''RGB''"
    by (simp add: optimize_image_for_ocr_def)
next
  assume avg: "average_brightness img = Inr a" and light: "128 \<le> a"
  then show "invert_if_dark img = Inr img"
    by (simp add: invert_if_dark_def)
qed

theorem dark_branch_gives_RGB_witness:
  "average_brightness (ImageRGBA [((0, 0, 0), 77)]) = Inr 0
   \<and> (\<exists>out. optimize_image_for_ocr (ImageRGBA [((0, 0, 0), 77)]) = Inr out \<and> mode out = ''RGB'')
   \<and> average_brightness (ImageRGBA [((255, 255, 255), 77)]) = Inr 255
   \<and> invert_if_dark (ImageRGBA [((255, 255, 255), 77)]) = Inr (ImageRGBA [((255, 255, 255), 77)])"
proof -
  have a0: "average_brightness (ImageRGBA [((0, 0, 0), 77)]) = Inr 0"
    by (simp add: average_brightness_cases rgb2l_black)
  have a1: "average_brightness (ImageRGBA [((255, 255, 255), 77)]) = Inr 255"
    by (simp add: average_brightness_cases rgb2l_white)
  show ?thesis
    using a0 a1 dark_branch_gives_RGB [of "ImageRGBA [((0, 0, 0), 77)]" 0]
      dark_branch_gives_RGB [of "ImageRGBA [((255, 255, 255), 77)]" 255]
    by simp
qed

section \<open>Validation of the schema records\<close>

lemma isl_ap: "isl (ap rf rx) \<longleftrightarrow> isl rf \<or> isl rx"
  by (simp add: ap_def split: sum.splits)

lemma errors_of_ap: "errors_of (ap rf rx) = errors_of rf @ errors_of rx"
  by (simp add: ap_def errors_of_def split: sum.splits)

lemma isl_at_loc: "isl (at_loc prefix r) \<longleftrightarrow> isl r"
  by (simp add: at_loc_def split: sum.splits)

lemma errors_of_at_loc:
  "errors_of (at_loc prefix r) = map (\<lambda>(loc, p). (prefix @ loc, p)) (errors_of r)"
  by (simp add: at_loc_def errors_of_def split: sum.splits)

lemma isl_str_field: "isl (str_field kwargs field) \<longleftrightarrow> offends_str kwargs field"
  by (simp add: str_field_def offends_str_def split: option.splits pyval.splits)

lemma isl_bool_field: "isl (bool_field kwargs field dflt) \<longleftrightarrow> offends_bool kwargs field"
  by (simp add: bool_field_def offends_bool_def split: option.splits pyval.splits)

lemma locs_str_field:
  "fst ` set (errors_of (str_field kwargs field))
     = (if offends_str kwargs field then {[Key field]} else {})"
  by (simp add: str_field_def offends_str_def errors_of_def split: option.splits pyval.splits)

lemma locs_bool_field:
  "fst ` set (errors_of (bool_field kwargs field dflt))
     = (if offends_bool kwargs field then {[Key field]} else {})"
  by (simp add: bool_field_def offends_bool_def errors_of_def split: option.splits pyval.splits)

lemma str_field_missing:
  "map_of kwargs field = None \<Longrightarrow> errors_of (str_field kwargs field) = [([Key field], missing)]"
  by (simp add: str_field_def errors_of_def)

lemma isl_list_items: "isl (list_items item i vs) \<longleftrightarrow> list_ex (\<lambda>v. isl (item v)) vs"
  by (induction vs arbitrary: i) (simp_all add: isl_ap isl_at_loc)

lemma errors_of_simps: "errors_of (Inr x) = []" "errors_of (Inl errs) = errs"
  by (simp_all add: errors_of_def)

lemma list_items_instances:
  "(\<And>x. item (wrap x) = Inr x) \<Longrightarrow> list_items item i (map wrap xs) = Inr xs"
  by (induction xs arbitrary: i) (simp_all add: ap_def at_loc_def)

lemma loc_str_field:
  "l \<in> fst ` set (errors_of (str_field kwargs field)) \<longleftrightarrow> l = [Key field] \<and> offends_str kwargs field"
  by (simp add: locs_str_field)

lemma loc_bool_field:
  "l \<in> fst ` set (errors_of (bool_field kwargs field dflt))
     \<longleftrightarrow> l = [Key field] \<and> offends_bool kwargs field"
  by (simp add: locs_bool_field)

lemma Column_init_isl:
  "isl (Column_init kwargs) \<longleftrightarrow>
     offends_str kwargs ''name'' \<or> offends_str kwargs ''type''
     \<or> offends_bool kwargs ''is_primary_key'' \<or> offends_bool kwargs ''is_foreign_key''"
  by (simp add: Column_init_def isl_ap isl_str_field isl_bool_field)

lemma Column_init_loc:
  "l \<in> fst ` set (errors_of (Column_init kwargs)) \<longleftrightarrow>
     l = [Key ''name''] \<and> offends_str kwargs ''name''
     \<or> l = [Key ''type''] \<and> offends_str kwargs ''type''
     \<or> l = [Key ''is_primary_key''] \<and> offends_bool kwargs ''is_primary_key''
     \<or> l = [Key ''is_foreign_key''] \<and> offends_bool kwargs ''is_foreign_key''"
  by (simp only: Column_init_def errors_of_ap errors_of_simps set_append image_Un Un_iff
      loc_str_field loc_bool_field append_Nil) simp

lemma Relationship_init_loc:
  "l \<in> fst ` set (errors_of (Relationship_init kwargs)) \<longleftrightarrow>
     l = [Key ''from_table''] \<and> offends_str kwargs ''from_table''
     \<or> l = [Key ''from_column''] \<and> offends_str kwargs ''from_column''
     \<or> l = [Key ''to_table''] \<and> offends_str kwargs ''to_table''
     \<or> l = [Key ''to_column''] \<and> offends_str kwargs ''to_column''
     \<or> l = [Key ''type''] \<and> offends_str kwargs ''type''"
  by (simp only: Relationship_init_def errors_of_ap errors_of_simps set_append image_Un Un_iff
      loc_str_field append_Nil) simp

lemma isl_iff_Inl: "isl r \<longleftrightarrow> (\<exists>errs. r = Inl errs)"
  by (cases r) simp_all

lemma Inl_errors_of: "r = Inl errs \<longleftrightarrow> isl r \<and> errors_of r = errs"
  by (cases r) (auto simp: errors_of_simps)

lemma Relationship_init_isl:
  "isl (Relationship_init kwargs) \<longleftrightarrow>
     offends_str kwargs ''from_table'' \<or> offends_str kwargs ''from_column''
     \<or> offends_str kwargs ''to_table'' \<or> offends_str kwargs ''to_column''
     \<or> offends_str kwargs ''type''"
  by (simp add: Relationship_init_def isl_ap isl_str_field)

lemma str_field_nonempty: "isl (str_field kwargs field) \<Longrightarrow> errors_of (str_field kwargs field) \<noteq> []"
  using locs_str_field [of kwargs field] by (auto simp: isl_str_field)

lemma bool_field_nonempty:
  "isl (bool_field kwargs field dflt) \<Longrightarrow> errors_of (bool_field kwargs field dflt) \<noteq> []"
  using locs_bool_field [of kwargs field dflt] by (auto simp: isl_bool_field)

lemma list_items_nonempty:
  assumes item: "\<And>v. isl (item v) \<Longrightarrow> errors_of (item v) \<noteq> []"
  shows "isl (list_items item i vs) \<Longrightarrow> errors_of (list_items item i vs) \<noteq> []"
proof (induction vs arbitrary: i)
  case Nil
  then show ?case by simp
next
  case (Cons v vs)
  from Cons.prems have "isl (item v) \<or> isl (list_items item (Suc i) vs)"
    by (simp add: isl_ap isl_at_loc)
  then show ?case
  proof
    assume "isl (item v)"
    then show ?thesis using item [of v]
      by (simp add: errors_of_ap errors_of_at_loc errors_of_simps)
  next
    assume "isl (list_items item (Suc i) vs)"
    then show ?thesis using Cons.IH [of "Suc i"]
      by (simp add: errors_of_ap)
  qed
qed

lemma list_field_nonempty:
  assumes item: "\<And>v. isl (item v) \<Longrightarrow> errors_of (item v) \<noteq> []"
  shows "isl (list_field item kwargs field) \<Longrightarrow> errors_of (list_field item kwargs field) \<noteq> []"
proof (cases "map_of kwargs field")
  case None
  then show ?thesis by (simp add: list_field_def errors_of_simps)
next
  case (Some v)
  assume l: "isl (list_field item kwargs field)"
  show ?thesis
  proof (cases "\<exists>vs. v = PyList vs")
    case True
    then obtain vs where v: "v = PyList vs" by blast
    from l have "isl (list_items item 0 vs)"
      by (simp add: list_field_def Some v isl_at_loc)
    then have "errors_of (list_items item 0 vs) \<noteq> []"
      using list_items_nonempty [of item 0 vs] item by blast
    then show ?thesis
      by (simp add: list_field_def Some v errors_of_at_loc)
  next
    case False
    then show ?thesis
      by (cases v) (simp_all add: list_field_def Some errors_of_simps)
  qed
qed

lemma Column_init_nonempty: "isl (Column_init kwargs) \<Longrightarrow> errors_of (Column_init kwargs) \<noteq> []"
  by (auto simp: Column_init_def isl_ap errors_of_ap str_field_nonempty bool_field_nonempty)

lemma Relationship_init_nonempty:
  "isl (Relationship_init kwargs) \<Longrightarrow> errors_of (Relationship_init kwargs) \<noteq> []"
  by (auto simp: Relationship_init_def isl_ap errors_of_ap str_field_nonempty)

lemma Column_validate_nonempty: "isl (Column_validate v) \<Longrightarrow> errors_of (Column_validate v) \<noteq> []"
  by (cases v) (simp_all add: Column_validate_def Column_init_nonempty errors_of_simps)

lemma Relationship_validate_nonempty:
  "isl (Relationship_validate v) \<Longrightarrow> errors_of (Relationship_validate v) \<noteq> []"
  by (cases v) (simp_all add: Relationship_validate_def Relationship_init_nonempty errors_of_simps)

lemma Column_init_example:
  "Column_init [(''name'', PyStr ''id''), (''type'', PyStr ''INTEGER'')]
     = Inr \<lparr>Column.name = ''id'', Column.type = ''INTEGER'',
            is_primary_key = False, is_foreign_key = False\<rparr>"
  by (simp add: Column_init_def ap_def str_field_def bool_field_def)

lemma Column_init_missing_name:
  assumes "map_of kwargs ''name'' = None"
  shows "\<exists>errs. Column_init kwargs = Inl errs \<and> ([Key ''name''], missing) \<in> set errs"
proof -
  from assms have off: "offends_str kwargs ''name''" by (simp add: offends_str_def)
  then have "isl (Column_init kwargs)" by (simp add: Column_init_isl)
  then have "Column_init kwargs = Inl (errors_of (Column_init kwargs))"
    by (simp add: Inl_errors_of)
  moreover have "([Key ''name''], missing) \<in> set (errors_of (Column_init kwargs))"
    by (simp add: Column_init_def errors_of_ap errors_of_simps str_field_missing [OF assms])
  ultimately show ?thesis by blast
qed

lemma mem_errors_isl: "e \<in> set (errors_of r) \<Longrightarrow> isl r"
  by (cases r) (simp_all add: errors_of_simps)

lemma isl_list_field:
  assumes "\<And>v. isl (item v) \<longleftrightarrow> \<not> of_type v"
  shows "isl (list_field item kwargs field) \<longleftrightarrow> offends_list of_type kwargs field"
  by (simp add: list_field_def offends_list_def isl_at_loc isl_list_items assms
      split: option.splits pyval.splits)

lemma Column_validate_isl: "isl (Column_validate v) \<longleftrightarrow> \<not> Column_typed v"
  by (cases v) (simp_all add: Column_validate_def Column_typed_def Column_init_isl)

lemma Relationship_validate_isl: "isl (Relationship_validate v) \<longleftrightarrow> \<not> Relationship_typed v"
  by (cases v) (simp_all add: Relationship_validate_def Relationship_typed_def Relationship_init_isl)

lemma Table_init_isl:
  "isl (Table_init kwargs) \<longleftrightarrow>
     offends_str kwargs ''name'' \<or> offends_list Column_typed kwargs ''columns''"
  by (simp add: Table_init_def isl_ap isl_str_field
      isl_list_field [of Column_validate Column_typed, OF Column_validate_isl])

lemma Table_validate_isl: "isl (Table_validate v) \<longleftrightarrow> \<not> Table_typed v"
  by (cases v) (simp_all add: Table_validate_def Table_typed_def Table_init_isl)

lemma DatabaseSchema_init_isl:
  "isl (DatabaseSchema_init kwargs) \<longleftrightarrow>
     offends_list Table_typed kwargs ''tables''
     \<or> offends_list Relationship_typed kwargs ''relationships''"
  by (simp add: DatabaseSchema_init_def isl_ap
      isl_list_field [of Table_validate Table_typed, OF Table_validate_isl]
      isl_list_field [of Relationship_validate Relationship_typed, OF Relationship_validate_isl])

lemma list_items_locs:
  "e \<in> set (errors_of (list_items item i vs)) \<Longrightarrow>
     \<exists>j rest. j < length vs \<and> isl (item (vs ! j)) \<and> fst e = Index (i + j) # rest"
proof (induction vs arbitrary: i)
  case Nil
  then show ?case by (simp add: errors_of_simps)
next
  case (Cons v vs)
  from Cons.prems
  have "e \<in> set (map (\<lambda>(loc, p). ([Index i] @ loc, p)) (errors_of (item v)))
      \<or> e \<in> set (errors_of (list_items item (Suc i) vs))"
    by (simp add: errors_of_ap errors_of_at_loc errors_of_simps)
  then show ?case
  proof
    assume "e \<in> set (map (\<lambda>(loc, p). ([Index i] @ loc, p)) (errors_of (item v)))"
    then obtain d where d: "d \<in> set (errors_of (item v))" and e: "e = ([Index i] @ fst d, snd d)"
      by (auto simp: case_prod_beta)
    from d have "isl (item v)" by (rule mem_errors_isl)
    with e have "0 < length (v # vs) \<and> isl (item ((v # vs) ! 0)) \<and> fst e = Index (i + 0) # fst d"
      by simp
    then show ?thesis by blast
  next
    assume "e \<in> set (errors_of (list_items item (Suc i) vs))"
    from Cons.IH [OF this] obtain j rest
      where "j < length vs" "isl (item (vs ! j))" "fst e = Index (Suc i + j) # rest"
      by blast
    then have "Suc j < length (v # vs) \<and> isl (item ((v # vs) ! Suc j))
        \<and> fst e = Index (i + Suc j) # rest"
      by simp
    then show ?thesis by blast
  qed
qed

lemma list_items_names:
  assumes item: "\<And>v. isl (item v) \<Longrightarrow> errors_of (item v) \<noteq> []"
  shows "j < length vs \<Longrightarrow> isl (item (vs ! j)) \<Longrightarrow>
     \<exists>e \<in> set (errors_of (list_items item i vs)). \<exists>rest. fst e = Index (i + j) # rest"
proof (induction vs arbitrary: i j)
  case Nil
  then show ?case by simp
next
  case (Cons v vs)
  show ?case
  proof (cases j)
    case 0
    with Cons.prems have "isl (item v)" by simp
    from item [OF this] obtain d ds where ds: "errors_of (item v) = d # ds"
      by (cases "errors_of (item v)") simp_all
    have "([Index i] @ fst d, snd d) \<in> set (errors_of (list_items item i (v # vs)))"
      by (simp add: errors_of_ap errors_of_at_loc errors_of_simps ds case_prod_beta)
    then show ?thesis using 0 by force
  next
    case (Suc k)
    with Cons.prems have "k < length vs" "isl (item (vs ! k))" by simp_all
    from Cons.IH [OF this, of "Suc i"] obtain e rest
      where "e \<in> set (errors_of (list_items item (Suc i) vs))" "fst e = Index (Suc i + k) # rest"
      by blast
    then have "e \<in> set (errors_of (list_items item i (v # vs))) \<and> fst e = Index (i + j) # rest"
      by (simp add: errors_of_ap Suc)
    then show ?thesis by blast
  qed
qed

lemma list_field_locs:
  assumes item: "\<And>v. isl (item v) \<longleftrightarrow> \<not> of_type v"
    and e: "e \<in> set (errors_of (list_field item kwargs field))"
  shows "points_at_list of_type kwargs field (fst e)"
proof (cases "map_of kwargs field")
  case None
  with e show ?thesis by (simp add: list_field_def points_at_list_def errors_of_simps)
next
  case (Some v)
  show ?thesis
  proof (cases "\<exists>vs. v = PyList vs")
    case True
    then obtain vs where v: "v = PyList vs" by blast
    from e obtain d where d: "d \<in> set (errors_of (list_items item 0 vs))"
      and ed: "e = ([Key field] @ fst d, snd d)"
      by (auto simp: list_field_def Some v errors_of_at_loc case_prod_beta)
    from list_items_locs [OF d] obtain j rest
      where "j < length vs" "isl (item (vs ! j))" "fst d = Index j # rest"
      by auto
    with ed item show ?thesis by (simp add: points_at_list_def Some v)
  next
    case False
    with e show ?thesis
      by (cases v) (simp_all add: list_field_def points_at_list_def Some errors_of_simps)
  qed
qed

lemma list_field_names:
  assumes item: "\<And>v. isl (item v) \<longleftrightarrow> \<not> of_type v"
    and nonempty: "\<And>v. isl (item v) \<Longrightarrow> errors_of (item v) \<noteq> []"
    and vs: "map_of kwargs field = Some (PyList vs)"
    and j: "j < length vs" "\<not> of_type (vs ! j)"
  shows "\<exists>e \<in> set (errors_of (list_field item kwargs field)).
     \<exists>rest. fst e = Key field # Index j # rest"
proof -
  from j item have "isl (item (vs ! j))" by simp
  from list_items_names [of item j vs 0, OF nonempty j(1) this] obtain d rest
    where d: "d \<in> set (errors_of (list_items item 0 vs))" and l: "fst d = Index j # rest"
    by auto
  from d have "([Key field] @ fst d, snd d) \<in> set (errors_of (list_field item kwargs field))"
    by (force simp: list_field_def vs errors_of_at_loc case_prod_beta)
  with l show ?thesis by force
qed

lemma Table_init_nonempty: "isl (Table_init kwargs) \<Longrightarrow> errors_of (Table_init kwargs) \<noteq> []"
  by (auto simp: Table_init_def isl_ap errors_of_ap str_field_nonempty
      list_field_nonempty [of Column_validate, OF Column_validate_nonempty])

lemma Table_validate_nonempty: "isl (Table_validate v) \<Longrightarrow> errors_of (Table_validate v) \<noteq> []"
  by (cases v) (simp_all add: Table_validate_def Table_init_nonempty errors_of_simps)

lemma DatabaseSchema_init_nonempty:
  "isl (DatabaseSchema_init kwargs) \<Longrightarrow> errors_of (DatabaseSchema_init kwargs) \<noteq> []"
  by (auto simp: DatabaseSchema_init_def isl_ap errors_of_ap
      list_field_nonempty [of Table_validate, OF Table_validate_nonempty]
      list_field_nonempty [of Relationship_validate, OF Relationship_validate_nonempty])

lemma Table_init_locs:
  assumes "e \<in> set (errors_of (Table_init kwargs))"
  shows "fst e = [Key ''name''] \<and> offends_str kwargs ''name''
     \<or> points_at_list Column_typed kwargs ''columns'' (fst e)"
proof -
  from assms have "e \<in> set (errors_of (str_field kwargs ''name''))
      \<or> e \<in> set (errors_of (list_field Column_validate kwargs ''columns''))"
    by (simp add: Table_init_def errors_of_ap errors_of_simps)
  then show ?thesis
  proof
    assume e: "e \<in> set (errors_of (str_field kwargs ''name''))"
    then have "fst e \<in> fst ` set (errors_of (str_field kwargs ''name''))" by (rule imageI)
    then show ?thesis by (simp add: locs_str_field split: if_splits)
  next
    assume e: "e \<in> set (errors_of (list_field Column_validate kwargs ''columns''))"
    from list_field_locs [of Column_validate Column_typed, OF Column_validate_isl e]
    show ?thesis by simp
  qed
qed

lemma Table_init_names:
  assumes "map_of kwargs ''columns'' = Some (PyList vs)" "j < length vs"
    "\<not> Column_typed (vs ! j)"
  shows "\<exists>e \<in> set (errors_of (Table_init kwargs)).
     \<exists>rest. fst e = Key ''columns'' # Index j # rest"
proof -
  from list_field_names [of Column_validate Column_typed, OF Column_validate_isl
      Column_validate_nonempty assms]
  obtain e rest where "e \<in> set (errors_of (list_field Column_validate kwargs ''columns''))"
    "fst e = Key ''columns'' # Index j # rest"
    by blast
  then have "e \<in> set (errors_of (Table_init kwargs)) \<and> fst e = Key ''columns'' # Index j # rest"
    by (simp add: Table_init_def errors_of_ap)
  then show ?thesis by blast
qed

lemma DatabaseSchema_init_locs:
  assumes "e \<in> set (errors_of (DatabaseSchema_init kwargs))"
  shows "points_at_list Table_typed kwargs ''tables'' (fst e)
     \<or> points_at_list Relationship_typed kwargs ''relationships'' (fst e)"
proof -
  from assms have "e \<in> set (errors_of (list_field Table_validate kwargs ''tables''))
      \<or> e \<in> set (errors_of (list_field Relationship_validate kwargs ''relationships''))"
    by (simp add: DatabaseSchema_init_def errors_of_ap errors_of_simps)
  then show ?thesis
  proof
    assume e: "e \<in> set (errors_of (list_field Table_validate kwargs ''tables''))"
    from list_field_locs [of Table_validate Table_typed, OF Table_validate_isl e]
    show ?thesis by simp
  next
    assume e: "e \<in> set (errors_of (list_field Relationship_validate kwargs ''relationships''))"
    from list_field_locs [of Relationship_validate Relationship_typed,
        OF Relationship_validate_isl e]
    show ?thesis by simp
  qed
qed

lemma Table_init_wrong_element:
  "Table_init [(''name'', PyStr ''t''), (''columns'', PyList [PyInt 3])]
     = Inl [([Key ''columns'', Index 0], wrong_type ''Column'')]"
  by (simp add: Table_init_def ap_def at_loc_def str_field_def list_field_def
      Column_validate_def errors_of_def)

lemma Table_init_nested_missing:
  "Table_init [(''name'', PyStr ''t''),
               (''columns'', PyList [PyDict [(''name'', PyStr ''id'')]])]
     = Inl [([Key ''columns'', Index 0, Key ''type''], missing)]"
  by (simp add: Table_init_def Column_init_def ap_def at_loc_def str_field_def bool_field_def
      list_field_def Column_validate_def errors_of_def)

lemma DatabaseSchema_init_wrong_element:
  "DatabaseSchema_init [(''tables'', PyList [PyStr ''users'']), (''relationships'', PyList [])]
     = Inl [([Key ''tables'', Index 0], wrong_type ''Table'')]"
  by (simp add: DatabaseSchema_init_def ap_def at_loc_def list_field_def
      Table_validate_def errors_of_def)

lemma DatabaseSchema_init_names:
  assumes "map_of kwargs ''tables'' = Some (PyList vs)" "j < length vs"
    "\<not> Table_typed (vs ! j)"
  shows "\<exists>e \<in> set (errors_of (DatabaseSchema_init kwargs)).
     \<exists>rest. fst e = Key ''tables'' # Index j # rest"
proof -
  from list_field_names [of Table_validate Table_typed, OF Table_validate_isl
      Table_validate_nonempty assms]
  obtain e rest where "e \<in> set (errors_of (list_field Table_validate kwargs ''tables''))"
    "fst e = Key ''tables'' # Index j # rest"
    by blast
  then have "e \<in> set (errors_of (DatabaseSchema_init kwargs))
      \<and> fst e = Key ''tables'' # Index j # rest"
    by (simp add: DatabaseSchema_init_def errors_of_ap)
  then show ?thesis by blast
qed

lemma DatabaseSchema_init_names_relationships:
  assumes "map_of kwargs ''relationships'' = Some (PyList vs)" "j < length vs"
    "\<not> Relationship_typed (vs ! j)"
  shows "\<exists>e \<in> set (errors_of (DatabaseSchema_init kwargs)).
     \<exists>rest. fst e = Key ''relationships'' # Index j # rest"
proof -
  from list_field_names [of Relationship_validate Relationship_typed,
      OF Relationship_validate_isl Relationship_validate_nonempty assms]
  obtain e rest
    where "e \<in> set (errors_of (list_field Relationship_validate kwargs ''relationships''))"
    "fst e = Key ''relationships'' # Index j # rest"
    by blast
  then have "e \<in> set (errors_of (DatabaseSchema_init kwargs))
      \<and> fst e = Key ''relationships'' # Index j # rest"
    by (simp add: DatabaseSchema_init_def errors_of_ap)
  then show ?thesis by blast
qed

text \<open>
  Claim C6. \<^verbatim>\<open>Column(name="id", type="INTEGER")\<close> succeeds, with both key flags
  False. A \<^verbatim>\<open>Column\<close> built without \<^verbatim>\<open>name\<close> fails, and the error names the field \<^verbatim>\<open>name\<close>
  as missing. For each of the four classes, construction fails exactly when a field
  offends: it is required and missing, or its value is wrongly typed, where a list is
  wrongly typed as soon as one of its elements is not of the element type. The error is
  then a non-empty list of details. For \<^verbatim>\<open>Column\<close> and \<^verbatim>\<open>Relationship\<close> the details are located
  at exactly the offending fields. For \<^verbatim>\<open>Table\<close> and \<^verbatim>\<open>DatabaseSchema\<close> every detail is
  located at an offending field, or, when the field is a list, at or below an element of
  it that is not of the element type, and every such element has a detail at or below it.
  So \<^verbatim>\<open>Table(name="t", columns=[3])\<close> fails at \<^verbatim>\<open>columns.0\<close>, a table whose column lacks
  its \<^verbatim>\<open>type\<close> fails at \<^verbatim>\<open>columns.0.type\<close>, and \<^verbatim>\<open>DatabaseSchema(tables=["users"],
  relationships=[])\<close> fails at \<^verbatim>\<open>tables.0\<close>. Construction has no other way to fail.
\<close>

theorem schema_validation:
  "Column_init [(''name'', PyStr ''id''), (''type'', PyStr ''INTEGER'')]
     = Inr \<lparr>Column.name = ''id'', Column.type = ''INTEGER'',
            is_primary_key = False, is_foreign_key = False\<rparr>
   \<and> (map_of kwargs ''name'' = None \<longrightarrow>
        (\<exists>errs. Column_init kwargs = Inl errs \<and> ([Key ''name''], missing) \<in> set errs))
   \<and> ((\<exists>errs. Column_init kwargs = Inl errs) \<longleftrightarrow>
        offends_str kwargs ''name'' \<or> offends_str kwargs ''type''
        \<or> offends_bool kwargs ''is_primary_key'' \<or> offends_bool kwargs ''is_foreign_key'')
   \<and> (\<forall>errs. Column_init kwargs = Inl errs \<longrightarrow> errs \<noteq> []
        \<and> (\<forall>l. l \<in> fst ` set errs \<longleftrightarrow>
             l = [Key ''name''] \<and> offends_str kwargs ''name''
             \<or> l = [Key ''type''] \<and> offends_str kwargs ''type''
             \<or> l = [Key ''is_primary_key''] \<and> offends_bool kwargs ''is_primary_key''
             \<or> l = [Key ''is_foreign_key''] \<and> offends_bool kwargs ''is_foreign_key''))
   \<and> ((\<exists>errs. Relationship_init kwargs = Inl errs) \<longleftrightarrow>
        offends_str kwargs ''from_table'' \<or> offends_str kwargs ''from_column''
        \<or> offends_str kwargs ''to_table'' \<or> offends_str kwargs ''to_column''
        \<or> offends_str kwargs ''type'')
   \<and> (\<forall>errs. Relationship_init kwargs = Inl errs \<longrightarrow> errs \<noteq> []
        \<and> (\<forall>l. l \<in> fst ` set errs \<longleftrightarrow>
             l = [Key ''from_table''] \<and> offends_str kwargs ''from_table''
             \<or> l = [Key ''from_column''] \<and> offends_str kwargs ''from_column''
             \<or> l = [Key ''to_table''] \<and> offends_str kwargs ''to_table''
             \<or> l = [Key ''to_column''] \<and> offends_str kwargs ''to_column''
             \<or> l = [Key ''type''] \<and> offends_str kwargs ''type''))
   \<and> ((\<exists>errs. Table_init kwargs = Inl errs) \<longleftrightarrow>
        offends_str kwargs ''name'' \<or> offends_list Column_typed kwargs ''columns'')
   \<and> (\<forall>errs. Table_init kwargs = Inl errs \<longrightarrow> errs \<noteq> []
        \<and> (\<forall>e \<in> set errs.
             fst e = [Key ''name''] \<and> offends_str kwargs ''name''
             \<or> points_at_list Column_typed kwargs ''columns'' (fst e)))
   \<and> (\<forall>vs j. map_of kwargs ''columns'' = Some (PyList vs) \<and> j < length vs
          \<and> \<not> Column_typed (vs ! j) \<longrightarrow>
        (\<exists>errs e rest. Table_init kwargs = Inl errs \<and> e \<in> set errs
           \<and> fst e = Key ''columns'' # Index j # rest))
   \<and> Table_init [(''name'', PyStr ''t''), (''columns'', PyList [PyInt 3])]
       = Inl [([Key ''columns'', Index 0], wrong_type ''Column'')]
   \<and> Table_init [(''name'', PyStr ''t''),
                  (''columns'', PyList [PyDict [(''name'', PyStr ''id'')]])]
       = Inl [([Key ''columns'', Index 0, Key ''type''], missing)]
   \<and> ((\<exists>errs. DatabaseSchema_init kwargs = Inl errs) \<longleftrightarrow>
        offends_list Table_typed kwargs ''tables''
        \<or> offends_list Relationship_typed kwargs ''relationships'')
   \<and> (\<forall>errs. DatabaseSchema_init kwargs = Inl errs \<longrightarrow> errs \<noteq> []
        \<and> (\<forall>e \<in> set errs.
             points_at_list Table_typed kwargs ''tables'' (fst e)
             \<or> points_at_list Relationship_typed kwargs ''relationships'' (fst e)))
   \<and> (\<forall>vs j. map_of kwargs ''tables'' = Some (PyList vs) \<and> j < length vs
          \<and> \<not> Table_typed (vs ! j) \<longrightarrow>
        (\<exists>errs e rest. DatabaseSchema_init kwargs = Inl errs \<and> e \<in> set errs
           \<and> fst e = Key ''tables'' # Index j # rest))
   \<and> (\<forall>vs j. map_of kwargs ''relationships'' = Some (PyList vs) \<and> j < length vs
          \<and> \<not> Relationship_typed (vs ! j) \<longrightarrow>
        (\<exists>errs e rest. DatabaseSchema_init kwargs = Inl errs \<and> e \<in> set errs
           \<and> fst e = Key ''relationships'' # Index j # rest))
   \<and> DatabaseSchema_init [(''tables'', PyList [PyStr ''users'']),
                           (''relationships'', PyList [])]
       = Inl [([Key ''tables'', Index 0], wrong_type ''Table'')]"
proof (intro conjI)
  show "Column_init [(''name'', PyStr ''id''), (''type'', PyStr ''INTEGER'')]
     = Inr \<lparr>Column.name = ''id'', Column.type = ''INTEGER'',
            is_primary_key = False, is_foreign_key = False\<rparr>"
    by (rule Column_init_example)
  show "map_of kwargs ''name'' = None \<longrightarrow>
        (\<exists>errs. Column_init kwargs = Inl errs \<and> ([Key ''name''], missing) \<in> set errs)"
    using Column_init_missing_name by blast
  show "(\<exists>errs. Column_init kwargs = Inl errs) \<longleftrightarrow>
        offends_str kwargs ''name'' \<or> offends_str kwargs ''type''
        \<or> offends_bool kwargs ''is_primary_key'' \<or> offends_bool kwargs ''is_foreign_key''"
    by (simp only: isl_iff_Inl [symmetric] Column_init_isl)
  show "\<forall>errs. Column_init kwargs = Inl errs \<longrightarrow> errs \<noteq> []
        \<and> (\<forall>l. l \<in> fst ` set errs \<longleftrightarrow>
             l = [Key ''name''] \<and> offends_str kwargs ''name''
             \<or> l = [Key ''type''] \<and> offends_str kwargs ''type''
             \<or> l = [Key ''is_primary_key''] \<and> offends_bool kwargs ''is_primary_key''
             \<or> l = [Key ''is_foreign_key''] \<and> offends_bool kwargs ''is_foreign_key'')"
  proof (intro allI impI)
    fix errs assume "Column_init kwargs = Inl errs"
    then have i: "isl (Column_init kwargs)" and e: "errors_of (Column_init kwargs) = errs"
      by (simp_all add: Inl_errors_of)
    from Column_init_nonempty [OF i] e have "errs \<noteq> []" by simp
    moreover have "\<forall>l. l \<in> fst ` set errs \<longleftrightarrow>
             l = [Key ''name''] \<and> offends_str kwargs ''name''
             \<or> l = [Key ''type''] \<and> offends_str kwargs ''type''
             \<or> l = [Key ''is_primary_key''] \<and> offends_bool kwargs ''is_primary_key''
             \<or> l = [Key ''is_foreign_key''] \<and> offends_bool kwargs ''is_foreign_key''"
      unfolding e [symmetric] using Column_init_loc [of _ kwargs] by blast
    ultimately show "errs \<noteq> []
        \<and> (\<forall>l. l \<in> fst ` set errs \<longleftrightarrow>
             l = [Key ''name''] \<and> offends_str kwargs ''name''
             \<or> l = [Key ''type''] \<and> offends_str kwargs ''type''
             \<or> l = [Key ''is_primary_key''] \<and> offends_bool kwargs ''is_primary_key''
             \<or> l = [Key ''is_foreign_key''] \<and> offends_bool kwargs ''is_foreign_key'')"
      by (rule conjI)
  qed
  show "(\<exists>errs. Relationship_init kwargs = Inl errs) \<longleftrightarrow>
        offends_str kwargs ''from_table'' \<or> offends_str kwargs ''from_column''
        \<or> offends_str kwargs ''to_table'' \<or> offends_str kwargs ''to_column''
        \<or> offends_str kwargs ''type''"
    by (simp only: isl_iff_Inl [symmetric] Relationship_init_isl)
  show "\<forall>errs. Relationship_init kwargs = Inl errs \<longrightarrow> errs \<noteq> []
        \<and> (\<forall>l. l \<in> fst ` set errs \<longleftrightarrow>
             l = [Key ''from_table''] \<and> offends_str kwargs ''from_table''
             \<or> l = [Key ''from_column''] \<and> offends_str kwargs ''from_column''
             \<or> l = [Key ''to_table''] \<and> offends_str kwargs ''to_table''
             \<or> l = [Key ''to_column''] \<and> offends_str kwargs ''to_column''
             \<or> l = [Key ''type''] \<and> offends_str kwargs ''type'')"
  proof (intro allI impI)
    fix errs assume "Relationship_init kwargs = Inl errs"
    then have i: "isl (Relationship_init kwargs)"
      and e: "errors_of (Relationship_init kwargs) = errs"
      by (simp_all add: Inl_errors_of)
    from Relationship_init_nonempty [OF i] e have "errs \<noteq> []" by simp
    moreover have "\<forall>l. l \<in> fst ` set errs \<longleftrightarrow>
             l = [Key ''from_table''] \<and> offends_str kwargs ''from_table''
             \<or> l = [Key ''from_column''] \<and> offends_str kwargs ''from_column''
             \<or> l = [Key ''to_table''] \<and> offends_str kwargs ''to_table''
             \<or> l = [Key ''to_column''] \<and> offends_str kwargs ''to_column''
             \<or> l = [Key ''type''] \<and> offends_str kwargs ''type''"
      unfolding e [symmetric] using Relationship_init_loc [of _ kwargs] by blast
    ultimately show "errs \<noteq> []
        \<and> (\<forall>l. l \<in> fst ` set errs \<longleftrightarrow>
             l = [Key ''from_table''] \<and> offends_str kwargs ''from_table''
             \<or> l = [Key ''from_column''] \<and> offends_str kwargs ''from_column''
             \<or> l = [Key ''to_table''] \<and> offends_str kwargs ''to_table''
             \<or> l = [Key ''to_column''] \<and> offends_str kwargs ''to_column''
             \<or> l = [Key ''type''] \<and> offends_str kwargs ''type'')"
      by (rule conjI)
  qed
  show "(\<exists>errs. Table_init kwargs = Inl errs) \<longleftrightarrow>
        offends_str kwargs ''name'' \<or> offends_list Column_typed kwargs ''columns''"
    by (simp only: isl_iff_Inl [symmetric] Table_init_isl)
  show "\<forall>errs. Table_init kwargs = Inl errs \<longrightarrow> errs \<noteq> []
        \<and> (\<forall>e \<in> set errs.
             fst e = [Key ''name''] \<and> offends_str kwargs ''name''
             \<or> points_at_list Column_typed kwargs ''columns'' (fst e))"
  proof (intro allI impI conjI ballI)
    fix errs assume "Table_init kwargs = Inl errs"
    then have i: "isl (Table_init kwargs)" and e: "errors_of (Table_init kwargs) = errs"
      by (simp_all add: Inl_errors_of)
    from Table_init_nonempty [OF i] e show "errs \<noteq> []" by simp
    fix d assume "d \<in> set errs"
    with e have "d \<in> set (errors_of (Table_init kwargs))" by simp
    then show "fst d = [Key ''name''] \<and> offends_str kwargs ''name''
             \<or> points_at_list Column_typed kwargs ''columns'' (fst d)"
      by (rule Table_init_locs)
  qed
  show "\<forall>vs j. map_of kwargs ''columns'' = Some (PyList vs) \<and> j < length vs
          \<and> \<not> Column_typed (vs ! j) \<longrightarrow>
        (\<exists>errs e rest. Table_init kwargs = Inl errs \<and> e \<in> set errs
           \<and> fst e = Key ''columns'' # Index j # rest)"
  proof (intro allI impI)
    fix vs j
    assume a: "map_of kwargs ''columns'' = Some (PyList vs) \<and> j < length vs
          \<and> \<not> Column_typed (vs ! j)"
    then obtain e rest where e: "e \<in> set (errors_of (Table_init kwargs))"
      and l: "fst e = Key ''columns'' # Index j # rest"
      using Table_init_names [of kwargs vs j] by blast
    from e have "isl (Table_init kwargs)" by (rule mem_errors_isl)
    then have "Table_init kwargs = Inl (errors_of (Table_init kwargs))"
      by (simp add: Inl_errors_of)
    with e l show "\<exists>errs e rest. Table_init kwargs = Inl errs \<and> e \<in> set errs
           \<and> fst e = Key ''columns'' # Index j # rest"
      by blast
  qed
  show "Table_init [(''name'', PyStr ''t''), (''columns'', PyList [PyInt 3])]
       = Inl [([Key ''columns'', Index 0], wrong_type ''Column'')]"
    by (rule Table_init_wrong_element)
  show "Table_init [(''name'', PyStr ''t''),
                  (''columns'', PyList [PyDict [(''name'', PyStr ''id'')]])]
       = Inl [([Key ''columns'', Index 0, Key ''type''], missing)]"
    by (rule Table_init_nested_missing)
  show "(\<exists>errs. DatabaseSchema_init kwargs = Inl errs) \<longleftrightarrow>
        offends_list Table_typed kwargs ''tables''
        \<or> offends_list Relationship_typed kwargs ''relationships''"
    by (simp only: isl_iff_Inl [symmetric] DatabaseSchema_init_isl)
  show "\<forall>errs. DatabaseSchema_init kwargs = Inl errs \<longrightarrow> errs \<noteq> []
        \<and> (\<forall>e \<in> set errs.
             points_at_list Table_typed kwargs ''tables'' (fst e)
             \<or> points_at_list Relationship_typed kwargs ''relationships'' (fst e))"
  proof (intro allI impI conjI ballI)
    fix errs assume "DatabaseSchema_init kwargs = Inl errs"
    then have i: "isl (DatabaseSchema_init kwargs)"
      and e: "errors_of (DatabaseSchema_init kwargs) = errs"
      by (simp_all add: Inl_errors_of)
    from DatabaseSchema_init_nonempty [OF i] e show "errs \<noteq> []" by simp
    fix d assume "d \<in> set errs"
    with e have "d \<in> set (errors_of (DatabaseSchema_init kwargs))" by simp
    then show "points_at_list Table_typed kwargs ''tables'' (fst d)
             \<or> points_at_list Relationship_typed kwargs ''relationships'' (fst d)"
      by (rule DatabaseSchema_init_locs)
  qed
  show "\<forall>vs j. map_of kwargs ''tables'' = Some (PyList vs) \<and> j < length vs
          \<and> \<not> Table_typed (vs ! j) \<longrightarrow>
        (\<exists>errs e rest. DatabaseSchema_init kwargs = Inl errs \<and> e \<in> set errs
           \<and> fst e = Key ''tables'' # Index j # rest)"
  proof (intro allI impI)
    fix vs j
    assume a: "map_of kwargs ''tables'' = Some (PyList vs) \<and> j < length vs
          \<and> \<not> Table_typed (vs ! j)"
    then obtain e rest where e: "e \<in> set (errors_of (DatabaseSchema_init kwargs))"
      and l: "fst e = Key ''tables'' # Index j # rest"
      using DatabaseSchema_init_names [of kwargs vs j] by blast
    from e have "isl (DatabaseSchema_init kwargs)" by (rule mem_errors_isl)
    then have "DatabaseSchema_init kwargs = Inl (errors_of (DatabaseSchema_init kwargs))"
      by (simp add: Inl_errors_of)
    with e l show "\<exists>errs e rest. DatabaseSchema_init kwargs = Inl errs \<and> e \<in> set errs
           \<and> fst e = Key ''tables'' # Index j # rest"
      by blast
  qed
  show "\<forall>vs j. map_of kwargs ''relationships'' = Some (PyList vs) \<and> j < length vs
          \<and> \<not> Relationship_typed (vs ! j) \<longrightarrow>
        (\<exists>errs e rest. DatabaseSchema_init kwargs = Inl errs \<and> e \<in> set errs
           \<and> fst e = Key ''relationships'' # Index j # rest)"
  proof (intro allI impI)
    fix vs j
    assume a: "map_of kwargs ''relationships'' = Some (PyList vs) \<and> j < length vs
          \<and> \<not> Relationship_typed (vs ! j)"
    then obtain e rest where e: "e \<in> set (errors_of (DatabaseSchema_init kwargs))"
      and l: "fst e = Key ''relationships'' # Index j # rest"
      using DatabaseSchema_init_names_relationships [of kwargs vs j] by blast
    from e have "isl (DatabaseSchema_init kwargs)" by (rule mem_errors_isl)
    then have "DatabaseSchema_init kwargs = Inl (errors_of (DatabaseSchema_init kwargs))"
      by (simp add: Inl_errors_of)
    with e l show "\<exists>errs e rest. DatabaseSchema_init kwargs = Inl errs \<and> e \<in> set errs
           \<and> fst e = Key ''relationships'' # Index j # rest"
      by blast
  qed
  show "DatabaseSchema_init [(''tables'', PyList [PyStr ''users'']),
                           (''relationships'', PyList [])]
       = Inl [([Key ''tables'', Index 0], wrong_type ''Table'')]"
    by (rule DatabaseSchema_init_wrong_element)
qed

theorem schema_validation_witness:
  "Column_init [(''type'', PyInt 3), (''is_primary_key'', PyNone)]
     = Inl [([Key ''name''], missing), ([Key ''type''], wrong_type ''str''),
            ([Key ''is_primary_key''], wrong_type ''bool'')]
   \<and> (\<exists>errs. Column_init [(''type'', PyInt 3), (''is_primary_key'', PyNone)] = Inl errs
        \<and> ([Key ''name''], missing) \<in> set errs)
   \<and> (\<exists>errs e rest.
        Table_init [(''name'', PyStr ''t''),
                    (''columns'', PyList [PyDict [(''name'', PyStr ''id''),
                                                  (''type'', PyStr ''INTEGER'')],
                                          PyStr ''email''])] = Inl errs
        \<and> e \<in> set errs \<and> fst e = Key ''columns'' # Index 1 # rest)"
proof -
  have m: "map_of [(''type'', PyInt 3), (''is_primary_key'', PyNone)] ''name'' = None"
    by simp
  have "Column_init [(''type'', PyInt 3), (''is_primary_key'', PyNone)]
     = Inl [([Key ''name''], missing), ([Key ''type''], wrong_type ''str''),
            ([Key ''is_primary_key''], wrong_type ''bool'')]"
    by (simp add: Column_init_def ap_def str_field_def bool_field_def errors_of_def)
  moreover
  from schema_validation [of "[(''type'', PyInt 3), (''is_primary_key'', PyNone)]",
      THEN conjunct2, THEN conjunct1, THEN mp, OF m]
  have "\<exists>errs. Column_init [(''type'', PyInt 3), (''is_primary_key'', PyNone)] = Inl errs
        \<and> ([Key ''name''], missing) \<in> set errs" .
  moreover have "\<exists>errs e rest.
        Table_init [(''name'', PyStr ''t''),
                    (''columns'', PyList [PyDict [(''name'', PyStr ''id''),
                                                  (''type'', PyStr ''INTEGER'')],
                                          PyStr ''email''])] = Inl errs
        \<and> e \<in> set errs \<and> fst e = Key ''columns'' # Index 1 # rest"
  proof -
    let ?vs = "[PyDict [(''name'', PyStr ''id''), (''type'', PyStr ''INTEGER'')], PyStr ''email'']"
    let ?k = "[(''name'', PyStr ''t''), (''columns'', PyList ?vs)]"
    have "map_of ?k ''columns'' = Some (PyList ?vs) \<and> 1 < length ?vs
        \<and> \<not> Column_typed (?vs ! 1)"
      by (simp add: Column_typed_def)
    from schema_validation [of ?k, THEN conjunct2, THEN conjunct2, THEN conjunct2,
        THEN conjunct2, THEN conjunct2, THEN conjunct2, THEN conjunct2, THEN conjunct2,
        THEN conjunct1, THEN spec, THEN spec, THEN mp, OF this]
    show ?thesis .
  qed
  ultimately show ?thesis by (intro conjI)
qed

section \<open>No referential checks\<close>

lemma Table_validate_instance: "Table_validate (PyTable t) = Inr t"
  by (simp add: Table_validate_def)

lemma Relationship_validate_instance: "Relationship_validate (PyRelationship r) = Inr r"
  by (simp add: Relationship_validate_def)

lemma DatabaseSchema_init_instances:
  "DatabaseSchema_init [(''tables'', PyList (map PyTable ts)),
                        (''relationships'', PyList (map PyRelationship rs))]
     = Inr \<lparr>tables = ts, relationships = rs\<rparr>"
  by (simp add: DatabaseSchema_init_def list_field_def ap_def at_loc_def
      list_items_instances [of Table_validate PyTable, OF Table_validate_instance]
      list_items_instances [of Relationship_validate PyRelationship,
        OF Relationship_validate_instance])

text \<open>
  Claim C7. \<^verbatim>\<open>DatabaseSchema(tables=[], relationships=[])\<close> succeeds and is the empty
  schema. Construction checks no references: whatever the tables \<open>ts\<close> and the
  relationships \<open>rs\<close> are, the schema built from them is accepted with exactly these two
  lists, as is a schema without tables whose one relationship names the tables
  \<^verbatim>\<open>orders\<close> and \<^verbatim>\<open>users\<close>.
\<close>

theorem no_referential_checks:
  "DatabaseSchema_init [(''tables'', PyList []), (''relationships'', PyList [])]
     = Inr \<lparr>tables = [], relationships = []\<rparr>
   \<and> DatabaseSchema_init [(''tables'', PyList (map PyTable ts)),
                          (''relationships'', PyList (map PyRelationship rs))]
     = Inr \<lparr>tables = ts, relationships = rs\<rparr>
   \<and> DatabaseSchema_init
       [(''tables'', PyList []),
        (''relationships'', PyList [PyDict
           [(''from_table'', PyStr ''orders''), (''from_column'', PyStr ''user_id''),
            (''to_table'', PyStr ''users''), (''to_column'', PyStr ''id''),
            (''type'', PyStr ''N:1'')]])]
     = Inr \<lparr>tables = [],
            relationships = [\<lparr>from_table = ''orders'', from_column = ''user_id'',
              to_table = ''users'', to_column = ''id'', Relationship.type = ''N:1''\<rparr>]\<rparr>"
proof (intro conjI)
  show "DatabaseSchema_init [(''tables'', PyList []), (''relationships'', PyList [])]
     = Inr \<lparr>tables = [], relationships = []\<rparr>"
    using DatabaseSchema_init_instances [of "[]" "[]"] by simp
  show "DatabaseSchema_init [(''tables'', PyList (map PyTable ts)),
                          (''relationships'', PyList (map PyRelationship rs))]
     = Inr \<lparr>tables = ts, relationships = rs\<rparr>"
    by (rule DatabaseSchema_init_instances)
  show "DatabaseSchema_init
       [(''tables'', PyList []),
        (''relationships'', PyList [PyDict
           [(''from_table'', PyStr ''orders''), (''from_column'', PyStr ''user_id''),
            (''to_table'', PyStr ''users''), (''to_column'', PyStr ''id''),
            (''type'', PyStr ''N:1'')]])]
     = Inr \<lparr>tables = [],
            relationships = [\<lparr>from_table = ''orders'', from_column = ''user_id'',
              to_table = ''users'', to_column = ''id'', Relationship.type = ''N:1''\<rparr>]\<rparr>"
    by (simp add: DatabaseSchema_init_def list_field_def ap_def at_loc_def
        Relationship_validate_def Relationship_init_def str_field_def)
qed

theorem no_referential_checks_witness:
  "DatabaseSchema_init
     [(''tables'', PyList [PyTable \<lparr>Table.name = ''users'', columns = []\<rparr>]),
      (''relationships'', PyList [PyRelationship
         \<lparr>from_table = ''orders'', from_column = ''user_id'',
          to_table = ''accounts'', to_column = ''id'', Relationship.type = ''N:1''\<rparr>])]
     = Inr \<lparr>tables = [\<lparr>Table.name = ''users'', columns = []\<rparr>],
            relationships = [\<lparr>from_table = ''orders'', from_column = ''user_id'',
              to_table = ''accounts'', to_column = ''id'', Relationship.type = ''N:1''\<rparr>]\<rparr>"
  using no_referential_checks [of "[\<lparr>Table.name = ''users'', columns = []\<rparr>]"
      "[\<lparr>from_table = ''orders'', from_column = ''user_id'',
          to_table = ''accounts'', to_column = ''id'', Relationship.type = ''N:1''\<rparr>]"]
  by simp

section \<open>Attribute assignment\<close>

lemma map_of_dict_setitem:
  "map_of (dict_setitem a v d) b = (if b = a then Some v else map_of d b)"
  by (induction d) auto

lemma getattr_setattr:
  assumes "setattr obj a v = Inr obj'"
  shows "getattr obj' b = (if b = a then Inr v else getattr obj b)"
proof -
  from assms have "obj' = (fst obj, dict_setitem a v (snd obj))"
    by (auto simp: setattr_def split: if_splits)
  then show ?thesis by (simp add: getattr_def map_of_dict_setitem)
qed

lemma setattr_declared:
  "a \<in> set (model_fields (fst obj)) \<Longrightarrow> \<exists>obj'. setattr obj a v = Inr obj'"
  by (simp add: setattr_def frozen_def)

lemma store_setattr_declared:
  assumes r: "r < length st" and a: "a \<in> set (model_fields (fst (st ! r)))"
  shows "\<exists>st'. store_setattr st r a v = Some (Inr st') \<and> store_getattr st' r a = Some (Inr v)"
proof -
  from setattr_declared [OF a] obtain obj' where s: "setattr (st ! r) a v = Inr obj'"
    by blast
  have "store_setattr st r a v = Some (Inr (st[r := obj']))"
    using r s by (simp add: store_setattr_def)
  moreover have "store_getattr (st[r := obj']) r a = Some (Inr v)"
    using r getattr_setattr [OF s, of a] by (simp add: store_getattr_def)
  ultimately show ?thesis by blast
qed

lemma store_getattr_append:
  "r < length st \<Longrightarrow> store_getattr (st @ objs) r a = store_getattr st r a"
  by (simp add: store_getattr_def nth_append)

lemma store_getattr_allocate:
  "store_getattr (st @ [obj]) (length st) a = Some (getattr obj a)"
  by (simp add: store_getattr_def)

lemma hstr_field_Inr:
  "hstr_field kwargs field = Inr s \<longleftrightarrow> map_of kwargs field = Some (HStr s)"
  by (simp add: hstr_field_def split: option.splits hval.splits)

lemma hbool_field_Inr:
  "hbool_field kwargs field dflt = Inr b \<Longrightarrow>
     b = (case map_of kwargs field of Some (HBool b') \<Rightarrow> b' | _ \<Rightarrow> dflt)"
  by (auto simp: hbool_field_def split: option.splits hval.splits)

lemma ap_Inr: "ap rf rx = Inr y \<longleftrightarrow> (\<exists>f x. rf = Inr f \<and> rx = Inr x \<and> y = f x)"
  by (auto simp: ap_def split: sum.splits)

lemma at_loc_Inr: "at_loc prefix r = Inr x \<longleftrightarrow> r = Inr x"
  by (simp add: at_loc_def split: sum.splits)

lemma Column_new_Inr:
  assumes "Column_new kwargs st = Inr (ref, st1)"
  shows "\<exists>n t pk fk. hstr_field kwargs ''name'' = Inr n \<and> hstr_field kwargs ''type'' = Inr t
     \<and> hbool_field kwargs ''is_primary_key'' False = Inr pk
     \<and> hbool_field kwargs ''is_foreign_key'' False = Inr fk
     \<and> ref = length st \<and> st1 = st @ [Column_object n t pk fk]"
  using assms
  by (auto simp: Column_new_def allocate_def ap_Inr split: sum.splits)

lemma Relationship_new_Inr:
  assumes "Relationship_new kwargs st = Inr (ref, st1)"
  shows "\<exists>ft fc tt tc ty. hstr_field kwargs ''from_table'' = Inr ft
     \<and> hstr_field kwargs ''from_column'' = Inr fc
     \<and> hstr_field kwargs ''to_table'' = Inr tt
     \<and> hstr_field kwargs ''to_column'' = Inr tc
     \<and> hstr_field kwargs ''type'' = Inr ty
     \<and> ref = length st \<and> st1 = st @ [Relationship_object ft fc tt tc ty]"
  using assms
  by (auto simp: Relationship_new_def allocate_def ap_Inr split: sum.splits)

lemma instance_item_Inr:
  assumes init: "\<And>kwargs st r st1. init kwargs st = Inr (r, st1) \<Longrightarrow> \<exists>objs. st1 = st @ objs"
    and i: "instance_item cls cls_name init v st = Inr (r, st1)"
  shows "(\<exists>objs. st1 = st @ objs) \<and> (\<forall>r0. v = HRef r0 \<longrightarrow> r = r0)"
proof (cases v)
  case (HRef r0)
  with i show ?thesis by (auto simp: instance_item_def split: if_splits)
next
  case (HDict kwargs)
  with i have "init kwargs st = Inr (r, st1)" by (simp add: instance_item_def)
  from init [OF this] HDict show ?thesis by simp
qed (use i in \<open>simp_all add: instance_item_def\<close>)

lemma new_items_Inr:
  assumes item: "\<And>v st r st1. item v st = Inr (r, st1) \<Longrightarrow>
      (\<exists>objs. st1 = st @ objs) \<and> (\<forall>r0. v = HRef r0 \<longrightarrow> r = r0)"
  shows "new_items item i vs st = Inr (rs, st') \<Longrightarrow>
     (\<exists>objs. st' = st @ objs) \<and> length rs = length vs
     \<and> (\<forall>j<length vs. \<forall>r. vs ! j = HRef r \<longrightarrow> rs ! j = r)"
proof (induction vs arbitrary: i st rs)
  case Nil
  then show ?case by simp
next
  case (Cons v vs)
  from Cons.prems obtain r st1 rs' where v: "item v st = Inr (r, st1)"
    and rest: "new_items item (Suc i) vs st1 = Inr (rs', st')" and rs: "rs = r # rs'"
    by (auto simp: at_loc_def split: sum.splits prod.splits)
  from item [OF v] obtain objs1 where st1: "st1 = st @ objs1"
    and ref: "\<forall>r0. v = HRef r0 \<longrightarrow> r = r0"
    by blast
  from Cons.IH [OF rest] obtain objs2 where st': "st' = st1 @ objs2"
    and len: "length rs' = length vs"
    and refs: "\<forall>j<length vs. \<forall>r. vs ! j = HRef r \<longrightarrow> rs' ! j = r"
    by blast
  have "\<exists>objs. st' = st @ objs" using st1 st' by simp
  moreover have "length rs = length (v # vs)" using rs len by simp
  moreover have "\<forall>j<length (v # vs). \<forall>r. (v # vs) ! j = HRef r \<longrightarrow> rs ! j = r"
  proof (intro allI impI)
    fix j r0 assume j: "j < length (v # vs)" and h: "(v # vs) ! j = HRef r0"
    show "rs ! j = r0"
    proof (cases j)
      case 0
      with h ref rs show ?thesis by simp
    next
      case (Suc k)
      with j h refs rs show ?thesis by simp
    qed
  qed
  ultimately show ?case by blast
qed

lemma new_list_field_Inr:
  assumes item: "\<And>v st r st1. item v st = Inr (r, st1) \<Longrightarrow>
      (\<exists>objs. st1 = st @ objs) \<and> (\<forall>r0. v = HRef r0 \<longrightarrow> r = r0)"
    and f: "new_list_field item kwargs field st = Inr (rs, st')"
  shows "\<exists>vs. map_of kwargs field = Some (HList vs)
     \<and> (\<exists>objs. st' = st @ objs) \<and> length rs = length vs
     \<and> (\<forall>j<length vs. \<forall>r. vs ! j = HRef r \<longrightarrow> rs ! j = r)"
proof -
  from f obtain vs where vs: "map_of kwargs field = Some (HList vs)"
    and n: "new_items item 0 vs st = Inr (rs, st')"
    by (auto simp: new_list_field_def at_loc_Inr split: option.splits hval.splits)
  from new_items_Inr [of item 0 vs st rs st', OF item n] vs show ?thesis by blast
qed

lemma Column_item_Inr:
  assumes "instance_item Column_class ''Column'' Column_new v st = Inr (r, st1)"
  shows "(\<exists>objs. st1 = st @ objs) \<and> (\<forall>r0. v = HRef r0 \<longrightarrow> r = r0)"
proof (rule instance_item_Inr [OF _ assms])
  fix kwargs st r st1 assume "Column_new kwargs st = Inr (r, st1)"
  from Column_new_Inr [OF this] show "\<exists>objs. st1 = st @ objs" by blast
qed

lemma Relationship_item_Inr:
  assumes "instance_item Relationship_class ''Relationship'' Relationship_new v st = Inr (r, st1)"
  shows "(\<exists>objs. st1 = st @ objs) \<and> (\<forall>r0. v = HRef r0 \<longrightarrow> r = r0)"
proof (rule instance_item_Inr [OF _ assms])
  fix kwargs st r st1 assume "Relationship_new kwargs st = Inr (r, st1)"
  from Relationship_new_Inr [OF this] show "\<exists>objs. st1 = st @ objs" by blast
qed

lemma Table_new_Inr:
  assumes "Table_new kwargs st = Inr (ref, st1)"
  shows "\<exists>n vs cs objs. map_of kwargs ''name'' = Some (HStr n)
     \<and> map_of kwargs ''columns'' = Some (HList vs)
     \<and> length cs = length vs
     \<and> (\<forall>j<length vs. \<forall>r. vs ! j = HRef r \<longrightarrow> cs ! j = r)
     \<and> ref = length (st @ objs) \<and> st1 = st @ objs @ [Table_object n cs]"
proof -
  from assms obtain n cs st0 where n: "hstr_field kwargs ''name'' = Inr n"
    and f: "new_list_field (instance_item Column_class ''Column'' Column_new)
              kwargs ''columns'' st = Inr (cs, st0)"
    and r: "ref = length st0" and s: "st1 = st0 @ [Table_object n cs]"
    by (auto simp: Table_new_def allocate_def split: sum.splits prod.splits)
  from new_list_field_Inr [of "instance_item Column_class ''Column'' Column_new", OF _ f]
    Column_item_Inr
  obtain vs objs where "map_of kwargs ''columns'' = Some (HList vs)" "st0 = st @ objs"
    "length cs = length vs" "\<forall>j<length vs. \<forall>r. vs ! j = HRef r \<longrightarrow> cs ! j = r"
    by blast
  with n r s show ?thesis by (auto simp: hstr_field_Inr)
qed

lemma Table_item_Inr:
  assumes "instance_item Table_class ''Table'' Table_new v st = Inr (r, st1)"
  shows "(\<exists>objs. st1 = st @ objs) \<and> (\<forall>r0. v = HRef r0 \<longrightarrow> r = r0)"
proof (rule instance_item_Inr [OF _ assms])
  fix kwargs st r st1 assume "Table_new kwargs st = Inr (r, st1)"
  from Table_new_Inr [OF this] show "\<exists>objs. st1 = st @ objs" by auto
qed

lemma DatabaseSchema_new_Inr:
  assumes "DatabaseSchema_new kwargs st = Inr (ref, st1)"
  shows "\<exists>tvs ts rvs rs objs. map_of kwargs ''tables'' = Some (HList tvs)
     \<and> map_of kwargs ''relationships'' = Some (HList rvs)
     \<and> length ts = length tvs
     \<and> (\<forall>j<length tvs. \<forall>r. tvs ! j = HRef r \<longrightarrow> ts ! j = r)
     \<and> length rs = length rvs
     \<and> (\<forall>j<length rvs. \<forall>r. rvs ! j = HRef r \<longrightarrow> rs ! j = r)
     \<and> ref = length (st @ objs) \<and> st1 = st @ objs @ [DatabaseSchema_object ts rs]"
proof -
  from assms obtain ts sta rs stb
    where t: "new_list_field (instance_item Table_class ''Table'' Table_new)
              kwargs ''tables'' st = Inr (ts, sta)"
    and l: "new_list_field (instance_item Relationship_class ''Relationship'' Relationship_new)
              kwargs ''relationships'' sta = Inr (rs, stb)"
    and r: "ref = length stb" and s: "st1 = stb @ [DatabaseSchema_object ts rs]"
    by (auto simp: DatabaseSchema_new_def allocate_def split: sum.splits prod.splits)
  from new_list_field_Inr [of "instance_item Table_class ''Table'' Table_new", OF _ t]
    Table_item_Inr
  obtain tvs objs1 where a: "map_of kwargs ''tables'' = Some (HList tvs)" "sta = st @ objs1"
    "length ts = length tvs" "\<forall>j<length tvs. \<forall>r. tvs ! j = HRef r \<longrightarrow> ts ! j = r"
    by blast
  from new_list_field_Inr
    [of "instance_item Relationship_class ''Relationship'' Relationship_new", OF _ l]
    Relationship_item_Inr
  obtain rvs objs2 where b: "map_of kwargs ''relationships'' = Some (HList rvs)"
    "stb = sta @ objs2"
    "length rs = length rvs" "\<forall>j<length rvs. \<forall>r. rvs ! j = HRef r \<longrightarrow> rs ! j = r"
    by blast
  have "ref = length (st @ objs1 @ objs2)
      \<and> st1 = st @ (objs1 @ objs2) @ [DatabaseSchema_object ts rs]"
    using r s a(2) b(2) by simp
  with a b show ?thesis by blast
qed

lemma getattr_Column_object:
  "getattr (Column_object n t pk fk) attr_name = Inr (HStr n)"
  "getattr (Column_object n t pk fk) attr_type = Inr (HStr t)"
  "getattr (Column_object n t pk fk) attr_is_primary_key = Inr (HBool pk)"
  "getattr (Column_object n t pk fk) attr_is_foreign_key = Inr (HBool fk)"
  by (simp_all add: getattr_def Column_object_def)

lemma getattr_Table_object:
  "getattr (Table_object n cs) attr_name = Inr (HStr n)"
  "getattr (Table_object n cs) attr_columns = Inr (HList (map HRef cs))"
  by (simp_all add: getattr_def Table_object_def)

lemma getattr_Relationship_object:
  "getattr (Relationship_object ft fc tt tc ty) attr_from_table = Inr (HStr ft)"
  "getattr (Relationship_object ft fc tt tc ty) attr_from_column = Inr (HStr fc)"
  "getattr (Relationship_object ft fc tt tc ty) attr_to_table = Inr (HStr tt)"
  "getattr (Relationship_object ft fc tt tc ty) attr_to_column = Inr (HStr tc)"
  "getattr (Relationship_object ft fc tt tc ty) attr_type = Inr (HStr ty)"
  by (simp_all add: getattr_def Relationship_object_def)

lemma getattr_DatabaseSchema_object:
  "getattr (DatabaseSchema_object ts rs) attr_tables = Inr (HList (map HRef ts))"
  "getattr (DatabaseSchema_object ts rs) attr_relationships = Inr (HList (map HRef rs))"
  by (simp_all add: getattr_def DatabaseSchema_object_def)

lemma store_getattr_last:
  "store_getattr (st @ objs @ [obj]) (length (st @ objs)) a = Some (getattr obj a)"
  using store_getattr_allocate [of "st @ objs" obj a] by simp

lemma store_getattr_frame:
  "r' < length st \<Longrightarrow> store_getattr (st @ objs @ [obj]) r' a = store_getattr st r' a"
  using store_getattr_append [of r' st "objs @ [obj]" a] by simp

lemma Column_new_fields:
  assumes "Column_new kwargs st = Inr (ref, st1)"
  shows "(\<exists>n t. map_of kwargs ''name'' = Some (HStr n)
        \<and> map_of kwargs ''type'' = Some (HStr t)
        \<and> store_getattr st1 ref attr_name = Some (Inr (HStr n))
        \<and> store_getattr st1 ref attr_type = Some (Inr (HStr t)))
     \<and> store_getattr st1 ref attr_is_primary_key
         = Some (Inr (HBool (case map_of kwargs ''is_primary_key'' of
                               Some (HBool b) \<Rightarrow> b | _ \<Rightarrow> False)))
     \<and> store_getattr st1 ref attr_is_foreign_key
         = Some (Inr (HBool (case map_of kwargs ''is_foreign_key'' of
                               Some (HBool b) \<Rightarrow> b | _ \<Rightarrow> False)))
     \<and> (\<forall>r' a. r' < length st \<longrightarrow> store_getattr st1 r' a = store_getattr st r' a)"
proof -
  from Column_new_Inr [OF assms] obtain n t pk fk
    where n: "hstr_field kwargs ''name'' = Inr n" and t: "hstr_field kwargs ''type'' = Inr t"
    and pk: "hbool_field kwargs ''is_primary_key'' False = Inr pk"
    and fk: "hbool_field kwargs ''is_foreign_key'' False = Inr fk"
    and r: "ref = length st" and s: "st1 = st @ [Column_object n t pk fk]"
    by blast
  have "map_of kwargs ''name'' = Some (HStr n) \<and> map_of kwargs ''type'' = Some (HStr t)
        \<and> store_getattr st1 ref attr_name = Some (Inr (HStr n))
        \<and> store_getattr st1 ref attr_type = Some (Inr (HStr t))"
    using n t by (simp add: hstr_field_Inr r s store_getattr_allocate getattr_Column_object)
  then have "\<exists>n t. map_of kwargs ''name'' = Some (HStr n)
        \<and> map_of kwargs ''type'' = Some (HStr t)
        \<and> store_getattr st1 ref attr_name = Some (Inr (HStr n))
        \<and> store_getattr st1 ref attr_type = Some (Inr (HStr t))"
    by blast
  moreover have "store_getattr st1 ref attr_is_primary_key
         = Some (Inr (HBool (case map_of kwargs ''is_primary_key'' of
                               Some (HBool b) \<Rightarrow> b | _ \<Rightarrow> False)))"
    using hbool_field_Inr [OF pk]
    by (simp add: r s store_getattr_allocate getattr_Column_object)
  moreover have "store_getattr st1 ref attr_is_foreign_key
         = Some (Inr (HBool (case map_of kwargs ''is_foreign_key'' of
                               Some (HBool b) \<Rightarrow> b | _ \<Rightarrow> False)))"
    using hbool_field_Inr [OF fk]
    by (simp add: r s store_getattr_allocate getattr_Column_object)
  moreover have "\<forall>r' a. r' < length st \<longrightarrow> store_getattr st1 r' a = store_getattr st r' a"
    by (simp add: s store_getattr_append)
  ultimately show ?thesis by (intro conjI)
qed

lemma Table_new_fields:
  assumes "Table_new kwargs st = Inr (ref, st1)"
  shows "(\<exists>n vs cs. map_of kwargs ''name'' = Some (HStr n)
        \<and> map_of kwargs ''columns'' = Some (HList vs)
        \<and> store_getattr st1 ref attr_name = Some (Inr (HStr n))
        \<and> store_getattr st1 ref attr_columns = Some (Inr (HList (map HRef cs)))
        \<and> length cs = length vs
        \<and> (\<forall>j<length vs. \<forall>r. vs ! j = HRef r \<longrightarrow> cs ! j = r))
     \<and> (\<forall>r' a. r' < length st \<longrightarrow> store_getattr st1 r' a = store_getattr st r' a)"
proof -
  from Table_new_Inr [OF assms] obtain n vs cs objs
    where n: "map_of kwargs ''name'' = Some (HStr n)"
    and vs: "map_of kwargs ''columns'' = Some (HList vs)"
    and len: "length cs = length vs"
    and refs: "\<forall>j<length vs. \<forall>r. vs ! j = HRef r \<longrightarrow> cs ! j = r"
    and r: "ref = length (st @ objs)" and s: "st1 = st @ objs @ [Table_object n cs]"
    by blast
  have "store_getattr st1 ref attr_name = Some (Inr (HStr n))"
    and "store_getattr st1 ref attr_columns = Some (Inr (HList (map HRef cs)))"
    unfolding r s store_getattr_last by (simp_all add: getattr_Table_object)
  with n vs len refs
  have "\<exists>n vs cs. map_of kwargs ''name'' = Some (HStr n)
        \<and> map_of kwargs ''columns'' = Some (HList vs)
        \<and> store_getattr st1 ref attr_name = Some (Inr (HStr n))
        \<and> store_getattr st1 ref attr_columns = Some (Inr (HList (map HRef cs)))
        \<and> length cs = length vs
        \<and> (\<forall>j<length vs. \<forall>r. vs ! j = HRef r \<longrightarrow> cs ! j = r)"
    by blast
  moreover have "\<forall>r' a. r' < length st \<longrightarrow> store_getattr st1 r' a = store_getattr st r' a"
    unfolding s using store_getattr_frame by blast
  ultimately show ?thesis by (rule conjI)
qed

lemma Relationship_new_fields:
  assumes "Relationship_new kwargs st = Inr (ref, st1)"
  shows "(\<exists>ft fc tt tc ty. map_of kwargs ''from_table'' = Some (HStr ft)
        \<and> map_of kwargs ''from_column'' = Some (HStr fc)
        \<and> map_of kwargs ''to_table'' = Some (HStr tt)
        \<and> map_of kwargs ''to_column'' = Some (HStr tc)
        \<and> map_of kwargs ''type'' = Some (HStr ty)
        \<and> store_getattr st1 ref attr_from_table = Some (Inr (HStr ft))
        \<and> store_getattr st1 ref attr_from_column = Some (Inr (HStr fc))
        \<and> store_getattr st1 ref attr_to_table = Some (Inr (HStr tt))
        \<and> store_getattr st1 ref attr_to_column = Some (Inr (HStr tc))
        \<and> store_getattr st1 ref attr_type = Some (Inr (HStr ty)))
     \<and> (\<forall>r' a. r' < length st \<longrightarrow> store_getattr st1 r' a = store_getattr st r' a)"
proof -
  from Relationship_new_Inr [OF assms] obtain ft fc tt tc ty
    where f: "hstr_field kwargs ''from_table'' = Inr ft"
      "hstr_field kwargs ''from_column'' = Inr fc"
      "hstr_field kwargs ''to_table'' = Inr tt"
      "hstr_field kwargs ''to_column'' = Inr tc"
      "hstr_field kwargs ''type'' = Inr ty"
    and r: "ref = length st" and s: "st1 = st @ [Relationship_object ft fc tt tc ty]"
    by blast
  have "map_of kwargs ''from_table'' = Some (HStr ft)
        \<and> map_of kwargs ''from_column'' = Some (HStr fc)
        \<and> map_of kwargs ''to_table'' = Some (HStr tt)
        \<and> map_of kwargs ''to_column'' = Some (HStr tc)
        \<and> map_of kwargs ''type'' = Some (HStr ty)
        \<and> store_getattr st1 ref attr_from_table = Some (Inr (HStr ft))
        \<and> store_getattr st1 ref attr_from_column = Some (Inr (HStr fc))
        \<and> store_getattr st1 ref attr_to_table = Some (Inr (HStr tt))
        \<and> store_getattr st1 ref attr_to_column = Some (Inr (HStr tc))
        \<and> store_getattr st1 ref attr_type = Some (Inr (HStr ty))"
    using f by (simp add: hstr_field_Inr r s store_getattr_allocate getattr_Relationship_object)
  then have "\<exists>ft fc tt tc ty. map_of kwargs ''from_table'' = Some (HStr ft)
        \<and> map_of kwargs ''from_column'' = Some (HStr fc)
        \<and> map_of kwargs ''to_table'' = Some (HStr tt)
        \<and> map_of kwargs ''to_column'' = Some (HStr tc)
        \<and> map_of kwargs ''type'' = Some (HStr ty)
        \<and> store_getattr st1 ref attr_from_table = Some (Inr (HStr ft))
        \<and> store_getattr st1 ref attr_from_column = Some (Inr (HStr fc))
        \<and> store_getattr st1 ref attr_to_table = Some (Inr (HStr tt))
        \<and> store_getattr st1 ref attr_to_column = Some (Inr (HStr tc))
        \<and> store_getattr st1 ref attr_type = Some (Inr (HStr ty))"
    by blast
  moreover have "\<forall>r' a. r' < length st \<longrightarrow> store_getattr st1 r' a = store_getattr st r' a"
    by (simp add: s store_getattr_append)
  ultimately show ?thesis by (rule conjI)
qed

lemma DatabaseSchema_new_fields:
  assumes "DatabaseSchema_new kwargs st = Inr (ref, st1)"
  shows "(\<exists>tvs ts rvs rs. map_of kwargs ''tables'' = Some (HList tvs)
        \<and> map_of kwargs ''relationships'' = Some (HList rvs)
        \<and> store_getattr st1 ref attr_tables = Some (Inr (HList (map HRef ts)))
        \<and> store_getattr st1 ref attr_relationships = Some (Inr (HList (map HRef rs)))
        \<and> length ts = length tvs
        \<and> (\<forall>j<length tvs. \<forall>r. tvs ! j = HRef r \<longrightarrow> ts ! j = r)
        \<and> length rs = length rvs
        \<and> (\<forall>j<length rvs. \<forall>r. rvs ! j = HRef r \<longrightarrow> rs ! j = r))
     \<and> (\<forall>r' a. r' < length st \<longrightarrow> store_getattr st1 r' a = store_getattr st r' a)"
proof -
  from DatabaseSchema_new_Inr [OF assms] obtain tvs ts rvs rs objs
    where k: "map_of kwargs ''tables'' = Some (HList tvs)"
      "map_of kwargs ''relationships'' = Some (HList rvs)"
      "length ts = length tvs"
      "\<forall>j<length tvs. \<forall>r. tvs ! j = HRef r \<longrightarrow> ts ! j = r"
      "length rs = length rvs"
      "\<forall>j<length rvs. \<forall>r. rvs ! j = HRef r \<longrightarrow> rs ! j = r"
    and r: "ref = length (st @ objs)" and s: "st1 = st @ objs @ [DatabaseSchema_object ts rs]"
    by blast
  have "store_getattr st1 ref attr_tables = Some (Inr (HList (map HRef ts)))"
    and "store_getattr st1 ref attr_relationships = Some (Inr (HList (map HRef rs)))"
    unfolding r s store_getattr_last by (simp_all add: getattr_DatabaseSchema_object)
  with k
  have "\<exists>tvs ts rvs rs. map_of kwargs ''tables'' = Some (HList tvs)
        \<and> map_of kwargs ''relationships'' = Some (HList rvs)
        \<and> store_getattr st1 ref attr_tables = Some (Inr (HList (map HRef ts)))
        \<and> store_getattr st1 ref attr_relationships = Some (Inr (HList (map HRef rs)))
        \<and> length ts = length tvs
        \<and> (\<forall>j<length tvs. \<forall>r. tvs ! j = HRef r \<longrightarrow> ts ! j = r)
        \<and> length rs = length rvs
        \<and> (\<forall>j<length rvs. \<forall>r. rvs ! j = HRef r \<longrightarrow> rs ! j = r)"
    by blast
  moreover have "\<forall>r' a. r' < length st \<longrightarrow> store_getattr st1 r' a = store_getattr st r' a"
    unfolding s using store_getattr_frame by blast
  ultimately show ?thesis by (rule conjI)
qed

text \<open>
  Construction in a store, on examples: a schema whose table and column are given as
  dictionaries creates the three instances, innermost first; and a list element that is
  neither an instance nor a dictionary is refused where the constructors of the records
  refuse it.
\<close>

lemma DatabaseSchema_new_example:
  "DatabaseSchema_new
     [(''tables'', HList [HDict [(''name'', HStr ''users''),
        (''columns'', HList [HDict [(''name'', HStr ''id''), (''type'', HStr ''INTEGER'')]])]]),
      (''relationships'', HList [])] []
     = Inr (2, [Column_object ''id'' ''INTEGER'' False False, Table_object ''users'' [0],
                DatabaseSchema_object [1] []])"
  by (simp add: DatabaseSchema_new_def Table_new_def Column_new_def new_list_field_def
      instance_item_def at_loc_def ap_def hstr_field_def hbool_field_def allocate_def)

lemma Table_new_wrong_element:
  "Table_new [(''name'', HStr ''t''), (''columns'', HList [HInt 3])] st
     = Inl [([Key ''columns'', Index 0], wrong_type ''Column'')]"
  by (simp add: Table_new_def new_list_field_def instance_item_def at_loc_def hstr_field_def
      errors_of_def)

text \<open>
  An instance that a table holds is the caller's instance, not a copy of it:
  after \<^verbatim>\<open>c = Column(name="id", type="INTEGER")\<close> and \<^verbatim>\<open>t = Table(name="users", columns=[c])\<close>,
  the assignment \<^verbatim>\<open>c.name = "x"\<close> is read through \<^verbatim>\<open>t.columns[0]\<close> as well.
\<close>

lemma shared_column_assignment:
  "Table_new [(''name'', HStr ''users''), (''columns'', HList [HRef 0])]
     [Column_object ''id'' ''INTEGER'' False False]
     = Inr (1, [Column_object ''id'' ''INTEGER'' False False, Table_object ''users'' [0]])
   \<and> store_getattr [Column_object ''id'' ''INTEGER'' False False, Table_object ''users'' [0]]
        1 attr_columns = Some (Inr (HList [HRef 0]))
   \<and> store_setattr [Column_object ''id'' ''INTEGER'' False False, Table_object ''users'' [0]]
        0 attr_name (HStr ''x'')
     = Some (Inr [Column_object ''x'' ''INTEGER'' False False, Table_object ''users'' [0]])
   \<and> store_getattr [Column_object ''x'' ''INTEGER'' False False, Table_object ''users'' [0]]
        1 attr_columns = Some (Inr (HList [HRef 0]))
   \<and> store_getattr [Column_object ''x'' ''INTEGER'' False False, Table_object ''users'' [0]]
        0 attr_name = Some (Inr (HStr ''x''))"
  by (simp add: Table_new_def hstr_field_def new_list_field_def instance_item_def at_loc_def
      allocate_def Column_object_def Table_object_def store_getattr_def store_setattr_def
      getattr_def setattr_def frozen_def)

text \<open>
  Claim C8, as amended. The field values of a record are established at construction:
  the fields of the new instance read as the values that were passed (the default False
  for an omitted key flag, the very instances that were passed for the elements of a
  list), and the construction leaves the fields of every instance that existed before as
  they were. But the records are not immutable: no class is frozen, so assigning to a
  field of a constructed record succeeds, and the field then reads as the assigned value.
  The claim as the specification states it, that no operation changes a field of a
  constructed record, fails at the assignment \<^verbatim>\<open>column.name = "x"\<close>, shown after the
  theorem.
\<close>

theorem field_assignment_succeeds:
  "(Column_new kwargs st = Inr (ref, st1) \<longrightarrow>
      (\<exists>n t. map_of kwargs ''name'' = Some (HStr n)
         \<and> map_of kwargs ''type'' = Some (HStr t)
         \<and> store_getattr st1 ref attr_name = Some (Inr (HStr n))
         \<and> store_getattr st1 ref attr_type = Some (Inr (HStr t)))
      \<and> store_getattr st1 ref attr_is_primary_key
          = Some (Inr (HBool (case map_of kwargs ''is_primary_key'' of
                                Some (HBool b) \<Rightarrow> b | _ \<Rightarrow> False)))
      \<and> store_getattr st1 ref attr_is_foreign_key
          = Some (Inr (HBool (case map_of kwargs ''is_foreign_key'' of
                                Some (HBool b) \<Rightarrow> b | _ \<Rightarrow> False)))
      \<and> (\<forall>r' a. r' < length st \<longrightarrow> store_getattr st1 r' a = store_getattr st r' a))
   \<and> (Table_new kwargs st = Inr (ref, st1) \<longrightarrow>
      (\<exists>n vs cs. map_of kwargs ''name'' = Some (HStr n)
         \<and> map_of kwargs ''columns'' = Some (HList vs)
         \<and> store_getattr st1 ref attr_name = Some (Inr (HStr n))
         \<and> store_getattr st1 ref attr_columns = Some (Inr (HList (map HRef cs)))
         \<and> length cs = length vs
         \<and> (\<forall>j<length vs. \<forall>r. vs ! j = HRef r \<longrightarrow> cs ! j = r))
      \<and> (\<forall>r' a. r' < length st \<longrightarrow> store_getattr st1 r' a = store_getattr st r' a))
   \<and> (Relationship_new kwargs st = Inr (ref, st1) \<longrightarrow>
      (\<exists>ft fc tt tc ty. map_of kwargs ''from_table'' = Some (HStr ft)
         \<and> map_of kwargs ''from_column'' = Some (HStr fc)
         \<and> map_of kwargs ''to_table'' = Some (HStr tt)
         \<and> map_of kwargs ''to_column'' = Some (HStr tc)
         \<and> map_of kwargs ''type'' = Some (HStr ty)
         \<and> store_getattr st1 ref attr_from_table = Some (Inr (HStr ft))
         \<and> store_getattr st1 ref attr_from_column = Some (Inr (HStr fc))
         \<and> store_getattr st1 ref attr_to_table = Some (Inr (HStr tt))
         \<and> store_getattr st1 ref attr_to_column = Some (Inr (HStr tc))
         \<and> store_getattr st1 ref attr_type = Some (Inr (HStr ty)))
      \<and> (\<forall>r' a. r' < length st \<longrightarrow> store_getattr st1 r' a = store_getattr st r' a))
   \<and> (DatabaseSchema_new kwargs st = Inr (ref, st1) \<longrightarrow>
      (\<exists>tvs ts rvs rs. map_of kwargs ''tables'' = Some (HList tvs)
         \<and> map_of kwargs ''relationships'' = Some (HList rvs)
         \<and> store_getattr st1 ref attr_tables = Some (Inr (HList (map HRef ts)))
         \<and> store_getattr st1 ref attr_relationships = Some (Inr (HList (map HRef rs)))
         \<and> length ts = length tvs
         \<and> (\<forall>j<length tvs. \<forall>r. tvs ! j = HRef r \<longrightarrow> ts ! j = r)
         \<and> length rs = length rvs
         \<and> (\<forall>j<length rvs. \<forall>r. rvs ! j = HRef r \<longrightarrow> rs ! j = r))
      \<and> (\<forall>r' a. r' < length st \<longrightarrow> store_getattr st1 r' a = store_getattr st r' a))
   \<and> (r < length st \<and> a \<in> set (model_fields (fst (st ! r))) \<longrightarrow>
      (\<exists>st2. store_setattr st r a v = Some (Inr st2)
         \<and> store_getattr st2 r a = Some (Inr v)))"
proof (intro conjI)
  show "Column_new kwargs st = Inr (ref, st1) \<longrightarrow>
      (\<exists>n t. map_of kwargs ''name'' = Some (HStr n)
         \<and> map_of kwargs ''type'' = Some (HStr t)
         \<and> store_getattr st1 ref attr_name = Some (Inr (HStr n))
         \<and> store_getattr st1 ref attr_type = Some (Inr (HStr t)))
      \<and> store_getattr st1 ref attr_is_primary_key
          = Some (Inr (HBool (case map_of kwargs ''is_primary_key'' of
                                Some (HBool b) \<Rightarrow> b | _ \<Rightarrow> False)))
      \<and> store_getattr st1 ref attr_is_foreign_key
          = Some (Inr (HBool (case map_of kwargs ''is_foreign_key'' of
                                Some (HBool b) \<Rightarrow> b | _ \<Rightarrow> False)))
      \<and> (\<forall>r' a. r' < length st \<longrightarrow> store_getattr st1 r' a = store_getattr st r' a)"
    by (rule impI) (rule Column_new_fields)
  show "Table_new kwargs st = Inr (ref, st1) \<longrightarrow>
      (\<exists>n vs cs. map_of kwargs ''name'' = Some (HStr n)
         \<and> map_of kwargs ''columns'' = Some (HList vs)
         \<and> store_getattr st1 ref attr_name = Some (Inr (HStr n))
         \<and> store_getattr st1 ref attr_columns = Some (Inr (HList (map HRef cs)))
         \<and> length cs = length vs
         \<and> (\<forall>j<length vs. \<forall>r. vs ! j = HRef r \<longrightarrow> cs ! j = r))
      \<and> (\<forall>r' a. r' < length st \<longrightarrow> store_getattr st1 r' a = store_getattr st r' a)"
    by (rule impI) (rule Table_new_fields)
  show "Relationship_new kwargs st = Inr (ref, st1) \<longrightarrow>
      (\<exists>ft fc tt tc ty. map_of kwargs ''from_table'' = Some (HStr ft)
         \<and> map_of kwargs ''from_column'' = Some (HStr fc)
         \<and> map_of kwargs ''to_table'' = Some (HStr tt)
         \<and> map_of kwargs ''to_column'' = Some (HStr tc)
         \<and> map_of kwargs ''type'' = Some (HStr ty)
         \<and> store_getattr st1 ref attr_from_table = Some (Inr (HStr ft))
         \<and> store_getattr st1 ref attr_from_column = Some (Inr (HStr fc))
         \<and> store_getattr st1 ref attr_to_table = Some (Inr (HStr tt))
         \<and> store_getattr st1 ref attr_to_column = Some (Inr (HStr tc))
         \<and> store_getattr st1 ref attr_type = Some (Inr (HStr ty)))
      \<and> (\<forall>r' a. r' < length st \<longrightarrow> store_getattr st1 r' a = store_getattr st r' a)"
    by (rule impI) (rule Relationship_new_fields)
  show "DatabaseSchema_new kwargs st = Inr (ref, st1) \<longrightarrow>
      (\<exists>tvs ts rvs rs. map_of kwargs ''tables'' = Some (HList tvs)
         \<and> map_of kwargs ''relationships'' = Some (HList rvs)
         \<and> store_getattr st1 ref attr_tables = Some (Inr (HList (map HRef ts)))
         \<and> store_getattr st1 ref attr_relationships = Some (Inr (HList (map HRef rs)))
         \<and> length ts = length tvs
         \<and> (\<forall>j<length tvs. \<forall>r. tvs ! j = HRef r \<longrightarrow> ts ! j = r)
         \<and> length rs = length rvs
         \<and> (\<forall>j<length rvs. \<forall>r. rvs ! j = HRef r \<longrightarrow> rs ! j = r))
      \<and> (\<forall>r' a. r' < length st \<longrightarrow> store_getattr st1 r' a = store_getattr st r' a)"
    by (rule impI) (rule DatabaseSchema_new_fields)
  show "r < length st \<and> a \<in> set (model_fields (fst (st ! r))) \<longrightarrow>
      (\<exists>st2. store_setattr st r a v = Some (Inr st2)
         \<and> store_getattr st2 r a = Some (Inr v))"
    using store_setattr_declared [of r st a v] by blast
qed

theorem immutable_records_counterexample:
  "Column_new [(''name'', HStr ''id''), (''type'', HStr ''INTEGER'')] []
     = Inr (0, [(Column_class, [(attr_name, HStr ''id''), (attr_type, HStr ''INTEGER''),
          (attr_is_primary_key, HBool False), (attr_is_foreign_key, HBool False)])])
   \<and> store_getattr [(Column_class, [(attr_name, HStr ''id''), (attr_type, HStr ''INTEGER''),
          (attr_is_primary_key, HBool False), (attr_is_foreign_key, HBool False)])] 0 attr_name
     = Some (Inr (HStr ''id''))
   \<and> store_setattr [(Column_class, [(attr_name, HStr ''id''), (attr_type, HStr ''INTEGER''),
          (attr_is_primary_key, HBool False), (attr_is_foreign_key, HBool False)])] 0 attr_name
          (HStr ''x'')
     = Some (Inr [(Column_class, [(attr_name, HStr ''x''), (attr_type, HStr ''INTEGER''),
          (attr_is_primary_key, HBool False), (attr_is_foreign_key, HBool False)])])
   \<and> store_getattr [(Column_class, [(attr_name, HStr ''x''), (attr_type, HStr ''INTEGER''),
          (attr_is_primary_key, HBool False), (attr_is_foreign_key, HBool False)])] 0 attr_name
     = Some (Inr (HStr ''x''))"
  by (simp add: Column_new_def ap_def hstr_field_def hbool_field_def
      allocate_def Column_object_def store_getattr_def store_setattr_def getattr_def
      setattr_def frozen_def)

theorem field_assignment_succeeds_witness:
  "store_getattr [Column_object ''id'' ''INTEGER'' False False] 0 attr_is_primary_key
     = Some (Inr (HBool False))
   \<and> store_getattr [Column_object ''id'' ''INTEGER'' False False, Table_object ''users'' [0]]
        1 attr_columns = Some (Inr (HList [HRef 0]))
   \<and> store_getattr [Relationship_object ''orders'' ''user_id'' ''users'' ''id'' ''many-to-one'']
        0 attr_to_table = Some (Inr (HStr ''users''))
   \<and> store_getattr [Column_object ''id'' ''INTEGER'' False False, Table_object ''users'' [0],
          DatabaseSchema_object [1] []]
        2 attr_tables = Some (Inr (HList [HRef 1]))
   \<and> (\<exists>st2. store_setattr [Table_object ''users'' []] 0 attr_name (HStr ''people'')
          = Some (Inr st2)
        \<and> store_getattr st2 0 attr_name = Some (Inr (HStr ''people'')))"
proof -
  let ?c = "Column_object ''id'' ''INTEGER'' False False"
  let ?t = "Table_object ''users'' [0]"
  let ?r = "Relationship_object ''orders'' ''user_id'' ''users'' ''id'' ''many-to-one''"
  let ?s = "DatabaseSchema_object [1] []"
  let ?kc = "[(''name'', HStr ''id''), (''type'', HStr ''INTEGER'')]"
  let ?kt = "[(''name'', HStr ''users''), (''columns'', HList [HRef 0])]"
  let ?kr = "[(''from_table'', HStr ''orders''), (''from_column'', HStr ''user_id''),
      (''to_table'', HStr ''users''), (''to_column'', HStr ''id''),
      (''type'', HStr ''many-to-one'')]"
  let ?ks = "[(''tables'', HList [HRef 1]), (''relationships'', HList [])]"
  have one: "xs = [x]" if "length xs = Suc 0" "xs ! 0 = x" for xs :: "nat list" and x
    using that by (cases xs) simp_all
  have c: "Column_new ?kc [] = Inr (0, [?c])"
    by (simp add: Column_new_def ap_def hstr_field_def hbool_field_def allocate_def)
  have t: "Table_new ?kt [?c] = Inr (1, [?c, ?t])"
    by (simp add: Table_new_def hstr_field_def new_list_field_def instance_item_def at_loc_def
        allocate_def Column_object_def)
  have r: "Relationship_new ?kr [] = Inr (0, [?r])"
    by (simp add: Relationship_new_def ap_def hstr_field_def allocate_def)
  have s: "DatabaseSchema_new ?ks [?c, ?t] = Inr (2, [?c, ?t, ?s])"
    by (simp add: DatabaseSchema_new_def new_list_field_def instance_item_def at_loc_def
        allocate_def Table_object_def)
  have h: "0 < length [Table_object ''users'' []]
      \<and> attr_name \<in> set (model_fields (fst ([Table_object ''users'' []] ! 0)))"
    by (simp add: Table_object_def)
  from field_assignment_succeeds [of ?kc "[]" 0 "[?c]",
      THEN conjunct1, THEN mp, OF c, THEN conjunct2, THEN conjunct1]
  have first: "store_getattr [?c] 0 attr_is_primary_key = Some (Inr (HBool False))"
    by simp
  from field_assignment_succeeds [of ?kt "[?c]" 1 "[?c, ?t]",
      THEN conjunct2, THEN conjunct1, THEN mp, OF t, THEN conjunct1]
  obtain vs cs where "map_of ?kt ''columns'' = Some (HList vs)"
    and g: "store_getattr [?c, ?t] 1 attr_columns = Some (Inr (HList (map HRef cs)))"
    and "length cs = length vs" and "\<forall>j<length vs. \<forall>r. vs ! j = HRef r \<longrightarrow> cs ! j = r"
    by blast
  then have "cs = [0]" by (intro one) auto
  with g have second: "store_getattr [?c, ?t] 1 attr_columns = Some (Inr (HList [HRef 0]))"
    by simp
  from field_assignment_succeeds [of ?kr "[]" 0 "[?r]",
      THEN conjunct2, THEN conjunct2, THEN conjunct1, THEN mp, OF r, THEN conjunct1]
  obtain tt where "map_of ?kr ''to_table'' = Some (HStr tt)"
    and "store_getattr [?r] 0 attr_to_table = Some (Inr (HStr tt))"
    by blast
  then have third: "store_getattr [?r] 0 attr_to_table = Some (Inr (HStr ''users''))"
    by simp
  from field_assignment_succeeds [of ?ks "[?c, ?t]" 2 "[?c, ?t, ?s]",
      THEN conjunct2, THEN conjunct2, THEN conjunct2, THEN conjunct1, THEN mp, OF s,
      THEN conjunct1]
  obtain tvs ts where "map_of ?ks ''tables'' = Some (HList tvs)"
    and g: "store_getattr [?c, ?t, ?s] 2 attr_tables = Some (Inr (HList (map HRef ts)))"
    and "length ts = length tvs" and "\<forall>j<length tvs. \<forall>r. tvs ! j = HRef r \<longrightarrow> ts ! j = r"
    by blast
  then have "ts = [1]" by (intro one) auto
  with g have fourth: "store_getattr [?c, ?t, ?s] 2 attr_tables = Some (Inr (HList [HRef 1]))"
    by simp
  from field_assignment_succeeds
    [of "[]" "[Table_object ''users'' []]" 0 "[]" 0 attr_name "HStr ''people''",
      THEN conjunct2, THEN conjunct2, THEN conjunct2, THEN conjunct2, THEN mp, OF h]
  have fifth: "\<exists>st2. store_setattr [Table_object ''users'' []] 0 attr_name (HStr ''people'')
        = Some (Inr st2)
      \<and> store_getattr st2 0 attr_name = Some (Inr (HStr ''people''))" .
  from first second third fourth fifth show ?thesis by (intro conjI)
qed

end
